theory Spec2Isabelle
  imports Complex_Main
begin

section \<open>Python values, dictionaries and exceptions\<close>

text \<open>
  The stage payloads of \<^verbatim>\<open>travel_planner_system.py\<close> are untyped Python dictionaries.
  They are modelled as association lists over a small universe of values; insertion
  order is kept, as in a Python \<^verbatim>\<open>dict\<close>.  \<open>PObject\<close> stands for any other object (a
  set, an instance of a class), known by its \<^verbatim>\<open>repr\<close> only.  Integers are unbounded, as
  in Python; floats (budget, wall-clock readings) are idealised as reals.
\<close>

datatype pyval =
    PNone
  | PStr string
  | PInt int
  | PFloat real
  | PList "pyval list"
  | PDict "(string \<times> pyval) list"
  | PObject string

type_synonym pydict = "(string \<times> pyval) list"

datatype error =
    KeyError string
  | TypeError
  | ZeroDivisionError
  | OverflowError
  | ValueError
  | RecursionError

text \<open>\<^verbatim>\<open>d[k]\<close> raises \<^verbatim>\<open>KeyError\<close> on a missing key; \<^verbatim>\<open>d.get(k, default)\<close> does not.\<close>

definition getitem :: "pydict \<Rightarrow> string \<Rightarrow> error + pyval" where
  "getitem d k = (case map_of d k of None \<Rightarrow> Inl (KeyError k) | Some v \<Rightarrow> Inr v)"

definition get_default :: "pydict \<Rightarrow> string \<Rightarrow> pyval \<Rightarrow> pyval" where
  "get_default d k dflt = (case map_of d k of None \<Rightarrow> dflt | Some v \<Rightarrow> v)"

text \<open>\<^verbatim>\<open>sep.join(xs)\<close> and \<^verbatim>\<open>str(n)\<close> for the prompts and the personalization notes.\<close>

fun join :: "string \<Rightarrow> string list \<Rightarrow> string" where
  "join sep [] = []"
| "join sep [x] = x"
| "join sep (x # y # ys) = x @ sep @ join sep (y # ys)"

fun str_nat :: "nat \<Rightarrow> string" where
  "str_nat n =
     (if n < 10 then [char_of (48 + n)]
      else str_nat (n div 10) @ [char_of (48 + n mod 10)])"

definition str_int :: "int \<Rightarrow> string" where
  "str_int i = (if i < 0 then CHR ''-'' # str_nat (nat (- i)) else str_nat (nat i))"

section \<open>Data model\<close>

text \<open>
  The budget is annotated \<^verbatim>\<open>float\<close>, but the dataclass converts nothing: the command
  line passes a float (\<^verbatim>\<open>type=float\<close>), the test fixture passes the integer \<open>1500\<close>.
  The two behave differently where the budget is multiplied by \<open>0.3\<close> and where it is
  written into a prompt, so the field keeps which of the two it holds.
\<close>

datatype number = IntNum int | FloatNum real

fun num_val :: "number \<Rightarrow> real" where
  "num_val (IntNum i) = of_int i"
| "num_val (FloatNum r) = r"

fun num_pyval :: "number \<Rightarrow> pyval" where
  "num_pyval (IntNum i) = PInt i"
| "num_pyval (FloatNum r) = PFloat r"

record TravelConstraints =
  total_budget_usd :: number
  duration_days :: int
  traveler_count :: int
  preferences :: "string list"
  must_visit :: "string list option"
  avoid :: "string list option"
  travel_style :: string

datatype AgentType = RESEARCH | PLANNING | PERSONALIZATION

text \<open>\<^verbatim>\<open>dataclasses.asdict\<close> on a \<^verbatim>\<open>TravelConstraints\<close>: one entry per field, in field order.\<close>

definition opt_strs :: "string list option \<Rightarrow> pyval" where
  "opt_strs v = (case v of None \<Rightarrow> PNone | Some xs \<Rightarrow> PList (map PStr xs))"

definition asdict :: "TravelConstraints \<Rightarrow> pyval" where
  "asdict c = PDict
     [(''total_budget_usd'', num_pyval (total_budget_usd c)),
      (''duration_days'', PInt (duration_days c)),
      (''traveler_count'', PInt (traveler_count c)),
      (''preferences'', PList (map PStr (preferences c))),
      (''must_visit'', opt_strs (must_visit c)),
      (''avoid'', opt_strs (avoid c)),
      (''travel_style'', PStr (travel_style c))]"

text \<open>
  \<^verbatim>\<open>TravelConstraints(**kwargs)\<close>: the generated \<^verbatim>\<open>__init__\<close> raises \<^verbatim>\<open>TypeError\<close> on an
  unexpected keyword and on a missing required field; \<^verbatim>\<open>must_visit\<close>, \<^verbatim>\<open>avoid\<close> and
  \<^verbatim>\<open>travel_style\<close> have defaults.  The dataclass does not check the types of the
  values; this model keeps the declared field types (with an integer or a float for the
  budget), so a value of another type is outside it and is rejected here with
  \<^verbatim>\<open>TypeError\<close> as well.  Every theorem below that speaks of a stage's constraints is
  about dictionaries produced by \<open>asdict\<close>, which never reach that branch.
\<close>

definition field_names :: "string list" where
  "field_names = [''total_budget_usd'', ''duration_days'', ''traveler_count'',
     ''preferences'', ''must_visit'', ''avoid'', ''travel_style'']"

fun str_list :: "pyval list \<Rightarrow> string list option" where
  "str_list [] = Some []"
| "str_list (PStr s # vs) = map_option ((#) s) (str_list vs)"
| "str_list (v # vs) = None"

fun as_number :: "pyval \<Rightarrow> number option" where
  "as_number (PFloat r) = Some (FloatNum r)"
| "as_number (PInt i) = Some (IntNum i)"
| "as_number v = None"

fun as_int :: "pyval \<Rightarrow> int option" where
  "as_int (PInt i) = Some i"
| "as_int v = None"

fun as_strs :: "pyval \<Rightarrow> string list option" where
  "as_strs (PList vs) = str_list vs"
| "as_strs v = None"

fun as_opt_strs :: "pyval \<Rightarrow> string list option option" where
  "as_opt_strs PNone = Some None"
| "as_opt_strs (PList vs) = map_option Some (str_list vs)"
| "as_opt_strs v = None"

fun as_str :: "pyval \<Rightarrow> string option" where
  "as_str (PStr s) = Some s"
| "as_str v = None"

definition TravelConstraints_init :: "pyval \<Rightarrow> error + TravelConstraints" where
  "TravelConstraints_init kwargs =
     (case kwargs of
        PDict d \<Rightarrow>
          if \<not> set (map fst d) \<subseteq> set field_names then Inl TypeError
          else
            (case (map_of d ''total_budget_usd'', map_of d ''duration_days'',
                   map_of d ''traveler_count'', map_of d ''preferences'') of
               (Some b, Some n, Some t, Some p) \<Rightarrow>
                 (case (as_number b, as_int n, as_int t, as_strs p,
                        as_opt_strs (get_default d ''must_visit'' PNone),
                        as_opt_strs (get_default d ''avoid'' PNone),
                        as_str (get_default d ''travel_style'' (PStr ''balanced''))) of
                    (Some b', Some n', Some t', Some p', Some mv, Some av, Some st) \<Rightarrow>
                      Inr \<lparr>total_budget_usd = b', duration_days = n', traveler_count = t',
                           preferences = p', must_visit = mv, avoid = av, travel_style = st\<rparr>
                  | _ \<Rightarrow> Inl TypeError)
             | _ \<Rightarrow> Inl TypeError)
      | _ \<Rightarrow> Inl TypeError)"

section \<open>The environment: interpreter, providers, clock, log\<close>

text \<open>
  Every delegated call is one of eleven prompt templates; a request is the template
  together with the values interpolated into it, in the order they appear in the
  f-string (\<^verbatim>\<open>json.dumps(x)\<close> contributes \<open>x\<close> itself).  The prompt text, the model name
  and the sampling parameters are functions of the request.
\<close>

datatype subcall =
    Weather | Events | Attractions | Accommodation | Transport | Synthesis
  | Itinerary | Logistics | Costs
  | Personalize | Contextual

datatype request = Prompt subcall "pyval list"

fun site :: "request \<Rightarrow> subcall" where
  "site (Prompt s args) = s"

fun issuer :: "subcall \<Rightarrow> AgentType" where
  "issuer Weather = RESEARCH"
| "issuer Events = RESEARCH"
| "issuer Attractions = RESEARCH"
| "issuer Accommodation = RESEARCH"
| "issuer Transport = RESEARCH"
| "issuer Synthesis = RESEARCH"
| "issuer Itinerary = PLANNING"
| "issuer Logistics = PLANNING"
| "issuer Costs = PLANNING"
| "issuer Personalize = PERSONALIZATION"
| "issuer Contextual = PERSONALIZATION"

text \<open>
  What a run does to the outside world, in order: entries of \<^verbatim>\<open>process\<close> (call-order
  instrumentation), provider calls with their outcome (\<open>None\<close> is any exception raised
  by the call), and the lines written to the logger.
\<close>

datatype event =
    Invoke AgentType pydict
  | ProviderCall request "string option"
  | LogError subcall
  | LogStarting string
  | LogPhase AgentType
  | LogAgentCompleted AgentType real
  | LogTripCompleted real

text \<open>
  The providers, the clock and the interpreter's limits are parameters.  The \<open>k\<close>-th
  provider call of a run is answered by \<open>respond E k\<close> applied to the request, the
  \<open>k\<close>-th reading of \<^verbatim>\<open>time.time()\<close> is \<open>wall_clock E k\<close>; nothing is assumed about
  either.  \<open>int_max_str_digits\<close> is \<^verbatim>\<open>sys.get_int_max_str_digits()\<close> (\<open>4300\<close> unless
  changed, \<open>0\<close> for no limit); \<open>json_depth\<close> and \<open>repr_depth\<close> are the numbers of nested
  containers that \<^verbatim>\<open>json.dumps\<close> and \<^verbatim>\<open>repr\<close> can descend into before the recursion
  limit stops them (some \<open>990\<close> with the default limit of \<open>1000\<close>).
\<close>

record env =
  respond :: "nat \<Rightarrow> request \<Rightarrow> string option"
  wall_clock :: "nat \<Rightarrow> real"
  int_max_str_digits :: nat
  json_depth :: nat
  repr_depth :: nat

record world =
  calls :: nat
  reads :: nat
  trace :: "event list"

definition emit :: "event \<Rightarrow> world \<Rightarrow> world" where
  "emit e w = w\<lparr>trace := trace w @ [e]\<rparr>"

definition time_time :: "env \<Rightarrow> world \<Rightarrow> real \<times> world" where
  "time_time E w = (wall_clock E (reads w), w\<lparr>reads := Suc (reads w)\<rparr>)"

definition provider_call :: "env \<Rightarrow> request \<Rightarrow> world \<Rightarrow> string option \<times> world" where
  "provider_call E req w =
     (let out = respond E (calls w) req
      in (out, emit (ProviderCall req out) (w\<lparr>calls := Suc (calls w)\<rparr>)))"

section \<open>Conversions that can raise\<close>

text \<open>
  An integer operand of a float operation is converted to a float first (rounding to
  nearest); \<^verbatim>\<open>OverflowError\<close> is raised when the result would not be finite, which is
  from \<open>2 ^ 1024 - 2 ^ 970\<close> on, in either direction.
\<close>

definition converts :: "int \<Rightarrow> bool" where
  "converts i = (\<bar>i\<bar> < 2 ^ 1024 - 2 ^ 970)"

definition to_float :: "number \<Rightarrow> error + real" where
  "to_float x =
     (case x of
        FloatNum r \<Rightarrow> Inr r
      | IntNum i \<Rightarrow> if converts i then Inr (of_int i) else Inl OverflowError)"

text \<open>
  Writing an integer in decimal (in an f-string, in \<^verbatim>\<open>repr\<close>, in \<^verbatim>\<open>json.dumps\<close>) raises
  \<^verbatim>\<open>ValueError\<close> when it has more digits than the limit; the interpreter accepts no
  limit below \<open>640\<close> other than \<open>0\<close>.
\<close>

definition digit_limit :: "env \<Rightarrow> nat option" where
  "digit_limit E =
     (if int_max_str_digits E = 0 then None else Some (max 640 (int_max_str_digits E)))"

definition fits :: "env \<Rightarrow> int \<Rightarrow> bool" where
  "fits E i = (case digit_limit E of None \<Rightarrow> True | Some n \<Rightarrow> \<bar>i\<bar> < 10 ^ n)"

text \<open>
  The traversal that \<^verbatim>\<open>repr\<close> (\<open>js = False\<close>) and \<^verbatim>\<open>json.dumps\<close> (\<open>js = True\<close>) make of
  a value, with \<open>d\<close> the number of containers they may still enter: the first failure in
  traversal order is the exception raised.  \<^verbatim>\<open>json.dumps\<close> rejects objects it has no
  encoding for.
\<close>

fun first_error :: "error option list \<Rightarrow> error option" where
  "first_error [] = None"
| "first_error (None # rs) = first_error rs"
| "first_error (Some e # rs) = Some e"

fun walk :: "env \<Rightarrow> bool \<Rightarrow> nat \<Rightarrow> pyval \<Rightarrow> error option" where
  "walk E js d PNone = None"
| "walk E js d (PStr s) = None"
| "walk E js d (PInt i) = (if fits E i then None else Some ValueError)"
| "walk E js d (PFloat r) = None"
| "walk E js d (PObject r) = (if js then Some TypeError else None)"
| "walk E js 0 (PList vs) = Some RecursionError"
| "walk E js (Suc d) (PList vs) = first_error (map (\<lambda>v. walk E js d v) vs)"
| "walk E js 0 (PDict kvs) = Some RecursionError"
| "walk E js (Suc d) (PDict kvs) = first_error (map (\<lambda>kv. walk E js d (snd kv)) kvs)"

text \<open>
  The values the pipeline builds itself are nested at most three deep
  (\<^verbatim>\<open>{"personalized": {"optimized_itinerary": {"itinerary": "..."}}}\<close>); an interpreter
  with less room than that could not run the surrounding calls either, so the depths
  are taken to be at least \<open>3\<close>.
\<close>

definition json_limit :: "env \<Rightarrow> nat" where
  "json_limit E = max 3 (json_depth E)"

definition repr_limit :: "env \<Rightarrow> nat" where
  "repr_limit E = max 3 (repr_depth E)"

text \<open>
  The replacement fields of the prompts.  \<open>str_of E v\<close> is \<^verbatim>\<open>{v}\<close>, \<open>json_dumps E v\<close> is
  \<^verbatim>\<open>{json.dumps(v, indent=2)}\<close>; each yields the value that goes into the request, or the
  exception.  An f-string evaluates its fields from left to right and stops at the
  first exception.
\<close>

definition str_of :: "env \<Rightarrow> pyval \<Rightarrow> error + pyval" where
  "str_of E v = (case walk E False (repr_limit E) v of Some e \<Rightarrow> Inl e | None \<Rightarrow> Inr v)"

definition json_dumps :: "env \<Rightarrow> pyval \<Rightarrow> error + pyval" where
  "json_dumps E v = (case walk E True (json_limit E) v of Some e \<Rightarrow> Inl e | None \<Rightarrow> Inr v)"

fun collect :: "(error + 'a) list \<Rightarrow> error + 'a list" where
  "collect [] = Inr []"
| "collect (Inl e # parts) = Inl e"
| "collect (Inr v # parts) =
     (case collect parts of Inl e \<Rightarrow> Inl e | Inr vs \<Rightarrow> Inr (v # vs))"

text \<open>
  The pattern around every provider call:
  \<^verbatim>\<open>try: response = client.create(prompt); return {key: response text}\<close>
  \<^verbatim>\<open>except Exception as e: logger.error(...); return {key: fallback}\<close>.
\<close>

definition attempt ::
  "env \<Rightarrow> request \<Rightarrow> string \<Rightarrow> pyval \<Rightarrow> world \<Rightarrow> pyval \<times> world" where
  "attempt E req key fallback w =
     (case provider_call E req w of
        (Some content, w') \<Rightarrow> (PDict [(key, PStr content)], w')
      | (None, w') \<Rightarrow> (PDict [(key, fallback)], emit (LogError (site req)) w'))"

text \<open>
  Ten of the eleven sub-calls build their prompt before the \<^verbatim>\<open>try\<close>: an exception
  raised by a replacement field leaves the function, and no provider call is made.
\<close>

definition delegated ::
  "env \<Rightarrow> subcall \<Rightarrow> (error + pyval) list \<Rightarrow> string \<Rightarrow> pyval \<Rightarrow> world
     \<Rightarrow> (error + pyval) \<times> world" where
  "delegated E s parts key fallback w =
     (case collect parts of
        Inl e \<Rightarrow> (Inl e, w)
      | Inr args \<Rightarrow>
          let (r, w') = attempt E (Prompt s args) key fallback w
          in (Inr r, w'))"

text \<open>
  \<^verbatim>\<open>_get_weather_info\<close> builds its prompt inside the \<^verbatim>\<open>try\<close>: an exception raised by a
  replacement field is caught like a failure of the provider, logged, and answered with
  the fallback, without a provider call.
\<close>

definition guarded ::
  "env \<Rightarrow> subcall \<Rightarrow> (error + pyval) list \<Rightarrow> string \<Rightarrow> pyval \<Rightarrow> world \<Rightarrow> pyval \<times> world"
  where
  "guarded E s parts key fallback w =
     (case collect parts of
        Inl e \<Rightarrow> (PDict [(key, fallback)], emit (LogError s) w)
      | Inr args \<Rightarrow> attempt E (Prompt s args) key fallback w)"

section \<open>Stage agents\<close>

text \<open>
  The mutable state of an agent is its \<^verbatim>\<open>processing_time\<close>; the class of the agent
  (which fixes \<^verbatim>\<open>agent_type\<close> and the \<^verbatim>\<open>_process_internal\<close> that runs) is passed along
  as an \<open>AgentType\<close>.
\<close>

record BaseAgent =
  processing_time :: real

definition BaseAgent_init :: BaseAgent where
  "BaseAgent_init = \<lparr>processing_time = 0\<rparr>"

subsection \<open>Research agent\<close>

definition get_weather_info :: "env \<Rightarrow> pyval \<Rightarrow> int \<Rightarrow> world \<Rightarrow> pyval \<times> world" where
  "get_weather_info E destination duration w =
     guarded E Weather [str_of E destination, str_of E (PInt duration)]
       ''weather_summary''
       (PStr ''Weather information unavailable'') w"

definition get_local_events :: "env \<Rightarrow> pyval \<Rightarrow> world \<Rightarrow> (error + pyval) \<times> world" where
  "get_local_events E destination w =
     delegated E Events [str_of E destination]
       ''events''
       (PStr ''Events information unavailable'') w"

definition get_attractions :: "env \<Rightarrow> pyval \<Rightarrow> world \<Rightarrow> (error + pyval) \<times> world" where
  "get_attractions E destination w =
     delegated E Attractions [str_of E destination]
       ''attractions''
       (PStr ''Attractions information unavailable'') w"

text \<open>
  \<^verbatim>\<open>constraints.total_budget_usd * 0.3 / constraints.duration_days\<close>, computed before the
  prompt and before the \<^verbatim>\<open>try\<close>: an integer budget is converted for the multiplication,
  the duration for the division, and a zero duration raises.
\<close>

definition budget_per_night :: "TravelConstraints \<Rightarrow> error + real" where
  "budget_per_night constraints =
     (case to_float (total_budget_usd constraints) of
        Inl e \<Rightarrow> Inl e
      | Inr budget \<Rightarrow>
          (case to_float (IntNum (duration_days constraints)) of
             Inl e \<Rightarrow> Inl e
           | Inr days \<Rightarrow>
               if days = 0 then Inl ZeroDivisionError else Inr (budget * (3 / 10) / days)))"

text \<open>The nightly budget is written with \<^verbatim>\<open>:.0f\<close>, which formats every float.\<close>

definition get_accommodation_info ::
  "env \<Rightarrow> pyval \<Rightarrow> TravelConstraints \<Rightarrow> world \<Rightarrow> (error + pyval) \<times> world" where
  "get_accommodation_info E destination constraints w =
     (case budget_per_night constraints of
        Inl e \<Rightarrow> (Inl e, w)
      | Inr per_night \<Rightarrow>
          delegated E Accommodation
            [str_of E destination, str_of E (PInt (traveler_count constraints)),
             Inr (PFloat per_night), str_of E (PInt (duration_days constraints)),
             Inr (PStr (travel_style constraints))]
            ''accommodation''
            (PStr ''Accommodation information unavailable'') w)"

definition get_transport_info ::
  "env \<Rightarrow> pyval \<Rightarrow> TravelConstraints \<Rightarrow> world \<Rightarrow> (error + pyval) \<times> world" where
  "get_transport_info E destination constraints w =
     delegated E Transport
       [str_of E destination, str_of E (PInt (duration_days constraints)),
        str_of E (PInt (traveler_count constraints)),
        Inr (PStr (travel_style constraints))]
       ''transport''
       (PStr ''Transport information unavailable'') w"

text \<open>\<^verbatim>\<open>{data[k]}\<close>: the subscript, then the conversion to text.\<close>

definition item_str :: "env \<Rightarrow> pydict \<Rightarrow> string \<Rightarrow> error + pyval" where
  "item_str E data k = (case getitem data k of Inl e \<Rightarrow> Inl e | Inr v \<Rightarrow> str_of E v)"

definition synthesize_information :: "env \<Rightarrow> pydict \<Rightarrow> world \<Rightarrow> (error + pyval) \<times> world" where
  "synthesize_information E data w =
     delegated E Synthesis
       (map (item_str E data)
          [''destination'', ''weather'', ''events'', ''attractions'', ''accommodation'',
           ''transport'', ''constraints''])
       ''synthesis''
       (PStr ''Synthesis unavailable'') w"

definition research_process_internal ::
  "env \<Rightarrow> BaseAgent \<Rightarrow> pydict \<Rightarrow> world \<Rightarrow> (error + pydict) \<times> world" where
  "research_process_internal E self input_data w =
     (case getitem input_data ''destination'' of
        Inl e \<Rightarrow> (Inl e, w)
      | Inr destination \<Rightarrow>
     (case getitem input_data ''constraints'' of
        Inl e \<Rightarrow> (Inl e, w)
      | Inr kwargs \<Rightarrow>
     (case TravelConstraints_init kwargs of
        Inl e \<Rightarrow> (Inl e, w)
      | Inr constraints \<Rightarrow>
     (let (weather_info, w1) = get_weather_info E destination (duration_days constraints) w
      in case get_local_events E destination w1 of
           (Inl e, w2) \<Rightarrow> (Inl e, w2)
         | (Inr local_events, w2) \<Rightarrow>
     (case get_attractions E destination w2 of
           (Inl e, w3) \<Rightarrow> (Inl e, w3)
         | (Inr attractions, w3) \<Rightarrow>
     (case get_accommodation_info E destination constraints w3 of
           (Inl e, w4) \<Rightarrow> (Inl e, w4)
         | (Inr accommodation_info, w4) \<Rightarrow>
     (case get_transport_info E destination constraints w4 of
           (Inl e, w5) \<Rightarrow> (Inl e, w5)
         | (Inr transport_info, w5) \<Rightarrow>
     (case synthesize_information E
                [(''destination'', destination),
                 (''weather'', weather_info),
                 (''events'', local_events),
                 (''attractions'', attractions),
                 (''accommodation'', accommodation_info),
                 (''transport'', transport_info),
                 (''constraints'', asdict constraints)] w5 of
           (Inl e, w6) \<Rightarrow> (Inl e, w6)
         | (Inr research_summary, w6) \<Rightarrow>
             (Inr [(''destination'', destination),
                   (''research_data'', research_summary),
                   (''raw_data'', PDict
                      [(''weather'', weather_info),
                       (''events'', local_events),
                       (''attractions'', attractions),
                       (''accommodation'', accommodation_info),
                       (''transport'', transport_info)]),
                   (''processing_time'', PFloat (processing_time self))], w6)))))))))"

subsection \<open>Planning agent\<close>

definition generate_itinerary ::
  "env \<Rightarrow> pyval \<Rightarrow> TravelConstraints \<Rightarrow> pyval \<Rightarrow> world \<Rightarrow> (error + pyval) \<times> world" where
  "generate_itinerary E research_data constraints destination w =
     delegated E Itinerary
       [str_of E (PInt (duration_days constraints)), str_of E destination,
        json_dumps E research_data,
        str_of E (num_pyval (total_budget_usd constraints)),
        str_of E (PInt (traveler_count constraints)),
        Inr (PStr (travel_style constraints)),
        Inr (PStr (join '', '' (preferences constraints)))]
       ''itinerary''
       (PStr ''Itinerary generation failed'') w"

definition optimize_logistics ::
  "env \<Rightarrow> pyval \<Rightarrow> TravelConstraints \<Rightarrow> world \<Rightarrow> (error + pyval) \<times> world" where
  "optimize_logistics E itinerary constraints w =
     delegated E Logistics [json_dumps E itinerary]
       ''optimized_itinerary''
       itinerary w"

definition analyze_costs ::
  "env \<Rightarrow> pyval \<Rightarrow> TravelConstraints \<Rightarrow> world \<Rightarrow> (error + pyval) \<times> world" where
  "analyze_costs E itinerary constraints w =
     delegated E Costs
       [json_dumps E itinerary, str_of E (num_pyval (total_budget_usd constraints)),
        str_of E (PInt (traveler_count constraints))]
       ''cost_analysis''
       (PStr ''Cost analysis unavailable'') w"

definition calculate_metrics :: "pyval \<Rightarrow> TravelConstraints \<Rightarrow> pyval" where
  "calculate_metrics itinerary constraints = PDict
     [(''budget_utilization'', PFloat (85 / 100)),
      (''geographic_efficiency'', PFloat (92 / 100)),
      (''time_efficiency'', PFloat (88 / 100)),
      (''preference_match'', PFloat (91 / 100))]"

definition planning_process_internal ::
  "env \<Rightarrow> BaseAgent \<Rightarrow> pydict \<Rightarrow> world \<Rightarrow> (error + pydict) \<times> world" where
  "planning_process_internal E self input_data w =
     (case getitem input_data ''research_data'' of
        Inl e \<Rightarrow> (Inl e, w)
      | Inr research_data \<Rightarrow>
     (case getitem input_data ''constraints'' of
        Inl e \<Rightarrow> (Inl e, w)
      | Inr kwargs \<Rightarrow>
     (case TravelConstraints_init kwargs of
        Inl e \<Rightarrow> (Inl e, w)
      | Inr constraints \<Rightarrow>
     (case getitem input_data ''destination'' of
        Inl e \<Rightarrow> (Inl e, w)
      | Inr destination \<Rightarrow>
     (case generate_itinerary E research_data constraints destination w of
        (Inl e, w1) \<Rightarrow> (Inl e, w1)
      | (Inr itinerary, w1) \<Rightarrow>
     (case optimize_logistics E itinerary constraints w1 of
        (Inl e, w2) \<Rightarrow> (Inl e, w2)
      | (Inr optimized_itinerary, w2) \<Rightarrow>
     (case analyze_costs E optimized_itinerary constraints w2 of
        (Inl e, w3) \<Rightarrow> (Inl e, w3)
      | (Inr cost_analysis, w3) \<Rightarrow>
          (Inr [(''destination'', destination),
                (''itinerary'', optimized_itinerary),
                (''cost_analysis'', cost_analysis),
                (''optimization_metrics'', calculate_metrics optimized_itinerary constraints),
                (''processing_time'', PFloat (processing_time self))], w3))))))))"

subsection \<open>Personalization agent\<close>

text \<open>\<^verbatim>\<open>constraints.must_visit or 'None specified'\<close>: \<^verbatim>\<open>None\<close> and the empty list are falsy.\<close>

definition or_none_specified :: "string list option \<Rightarrow> pyval" where
  "or_none_specified v =
     (case v of
        None \<Rightarrow> PStr ''None specified''
      | Some [] \<Rightarrow> PStr ''None specified''
      | Some (x # xs) \<Rightarrow> PList (map PStr (x # xs)))"

definition personalize_itinerary ::
  "env \<Rightarrow> pyval \<Rightarrow> TravelConstraints \<Rightarrow> pyval \<Rightarrow> world \<Rightarrow> (error + pyval) \<times> world" where
  "personalize_itinerary E itinerary constraints research_data w =
     delegated E Personalize
       [json_dumps E itinerary,
        Inr (PStr (join '', '' (preferences constraints))),
        Inr (PStr (travel_style constraints)),
        str_of E (PInt (traveler_count constraints)),
        Inr (or_none_specified (must_visit constraints)),
        Inr (or_none_specified (avoid constraints)),
        json_dumps E research_data]
       ''personalized''
       itinerary w"

definition add_contextual_recommendations ::
  "env \<Rightarrow> pyval \<Rightarrow> TravelConstraints \<Rightarrow> world \<Rightarrow> (error + pyval) \<times> world" where
  "add_contextual_recommendations E itinerary constraints w =
     delegated E Contextual [json_dumps E itinerary]
       ''enhanced_itinerary''
       itinerary w"

text \<open>The notes are three f-strings and a literal; the second writes the traveler count.\<close>

definition generate_notes :: "env \<Rightarrow> TravelConstraints \<Rightarrow> error + pyval" where
  "generate_notes E constraints =
     (if \<not> fits E (traveler_count constraints) then Inl ValueError
      else Inr (PList
        [PStr (''Itinerary personalized for '' @ travel_style constraints @ '' travel style''),
         PStr (''Optimized for '' @ str_int (traveler_count constraints) @ '' travelers''),
         PStr (''Focused on preferences: '' @ join '', '' (take 3 (preferences constraints))),
         PStr ''Alternative options provided for weather contingencies'']))"

definition personalization_process_internal ::
  "env \<Rightarrow> BaseAgent \<Rightarrow> pydict \<Rightarrow> world \<Rightarrow> (error + pydict) \<times> world" where
  "personalization_process_internal E self input_data w =
     (case getitem input_data ''itinerary'' of
        Inl e \<Rightarrow> (Inl e, w)
      | Inr itinerary \<Rightarrow>
     (case getitem input_data ''constraints'' of
        Inl e \<Rightarrow> (Inl e, w)
      | Inr kwargs \<Rightarrow>
     (case TravelConstraints_init kwargs of
        Inl e \<Rightarrow> (Inl e, w)
      | Inr constraints \<Rightarrow>
     (let research_data = get_default input_data ''research_data'' (PDict [])
      in case personalize_itinerary E itinerary constraints research_data w of
           (Inl e, w1) \<Rightarrow> (Inl e, w1)
         | (Inr personalized, w1) \<Rightarrow>
     (case add_contextual_recommendations E personalized constraints w1 of
           (Inl e, w2) \<Rightarrow> (Inl e, w2)
         | (Inr enhanced, w2) \<Rightarrow>
     (case generate_notes E constraints of
           Inl e \<Rightarrow> (Inl e, w2)
         | Inr notes \<Rightarrow>
             (Inr [(''personalized_itinerary'', enhanced),
                   (''personalization_notes'', notes),
                   (''processing_time'', PFloat (processing_time self))], w2)))))))"

subsection \<open>The uniform contract\<close>

fun process_internal ::
  "env \<Rightarrow> AgentType \<Rightarrow> BaseAgent \<Rightarrow> pydict \<Rightarrow> world \<Rightarrow> (error + pydict) \<times> world" where
  "process_internal E RESEARCH = research_process_internal E"
| "process_internal E PLANNING = planning_process_internal E"
| "process_internal E PERSONALIZATION = personalization_process_internal E"

text \<open>
  \<^verbatim>\<open>BaseAgent.process\<close>: read the clock, run the internal procedure, read the clock
  again, store the difference in the agent, log it, return the payload unchanged.
  An exception of the internal procedure passes through and leaves the agent as it was.
\<close>

definition process ::
  "env \<Rightarrow> AgentType \<Rightarrow> BaseAgent \<Rightarrow> pydict \<Rightarrow> world \<Rightarrow> (error + pydict) \<times> BaseAgent \<times> world"
  where
  "process E cls self input_data w =
     (let (start_time, w1) = time_time E (emit (Invoke cls input_data) w)
      in case process_internal E cls self input_data w1 of
           (Inl e, w2) \<Rightarrow> (Inl e, self, w2)
         | (Inr result, w2) \<Rightarrow>
             (let (end_time, w3) = time_time E w2;
                  self' = self\<lparr>processing_time := end_time - start_time\<rparr>
              in (Inr result, self',
                  emit (LogAgentCompleted cls (processing_time self')) w3)))"

section \<open>Orchestrator\<close>

record TravelPlanningOrchestrator =
  research_agent :: BaseAgent
  planning_agent :: BaseAgent
  personalization_agent :: BaseAgent

definition TravelPlanningOrchestrator_init :: TravelPlanningOrchestrator where
  "TravelPlanningOrchestrator_init =
     \<lparr>research_agent = BaseAgent_init, planning_agent = BaseAgent_init,
      personalization_agent = BaseAgent_init\<rparr>"

definition plan_trip ::
  "env \<Rightarrow> TravelPlanningOrchestrator \<Rightarrow> string \<Rightarrow> TravelConstraints \<Rightarrow> world
     \<Rightarrow> (error + pydict) \<times> TravelPlanningOrchestrator \<times> world" where
  "plan_trip E self destination constraints w =
     (let w1 = emit (LogPhase RESEARCH) (emit (LogStarting destination) w);
          research_input =
            [(''destination'', PStr destination), (''constraints'', asdict constraints)]
      in case process E RESEARCH (research_agent self) research_input w1 of
           (Inl e, a1, w2) \<Rightarrow> (Inl e, self\<lparr>research_agent := a1\<rparr>, w2)
         | (Inr research_output, a1, w2) \<Rightarrow>
     (let self1 = self\<lparr>research_agent := a1\<rparr>;
          w3 = emit (LogPhase PLANNING) w2
      in case getitem research_output ''research_data'' of
           Inl e \<Rightarrow> (Inl e, self1, w3)
         | Inr research_data \<Rightarrow>
     (let planning_input =
            [(''destination'', PStr destination), (''constraints'', asdict constraints),
             (''research_data'', research_data)]
      in case process E PLANNING (planning_agent self1) planning_input w3 of
           (Inl e, a2, w4) \<Rightarrow> (Inl e, self1\<lparr>planning_agent := a2\<rparr>, w4)
         | (Inr planning_output, a2, w4) \<Rightarrow>
     (let self2 = self1\<lparr>planning_agent := a2\<rparr>;
          w5 = emit (LogPhase PERSONALIZATION) w4
      in case getitem planning_output ''itinerary'' of
           Inl e \<Rightarrow> (Inl e, self2, w5)
         | Inr itinerary \<Rightarrow>
     (let personalization_input =
            [(''destination'', PStr destination), (''constraints'', asdict constraints),
             (''research_data'', research_data), (''itinerary'', itinerary)]
      in case process E PERSONALIZATION (personalization_agent self2)
                personalization_input w5 of
           (Inl e, a3, w6) \<Rightarrow> (Inl e, self2\<lparr>personalization_agent := a3\<rparr>, w6)
         | (Inr personalization_output, a3, w6) \<Rightarrow>
     (let self3 = self2\<lparr>personalization_agent := a3\<rparr>;
          total_time = processing_time (research_agent self3)
                     + processing_time (planning_agent self3)
                     + processing_time (personalization_agent self3)
      in (Inr [(''destination'', PStr destination),
               (''constraints'', asdict constraints),
               (''research_output'', PDict research_output),
               (''planning_output'', PDict planning_output),
               (''personalization_output'', PDict personalization_output),
               (''total_processing_time'', PFloat total_time),
               (''agent_times'', PDict
                  [(''research'', PFloat (processing_time (research_agent self3))),
                   (''planning'', PFloat (processing_time (planning_agent self3))),
                   (''personalization'',
                      PFloat (processing_time (personalization_agent self3)))])],
          self3, emit (LogTripCompleted total_time) w6)))))))"

section \<open>Observations on a run\<close>

text \<open>The events a computation added to the trace, given the worlds before and after.\<close>

definition emitted :: "world \<Rightarrow> world \<Rightarrow> event list" where
  "emitted w w' = drop (length (trace w)) (trace w')"

definition attempt_events :: "request \<Rightarrow> string option \<Rightarrow> event list" where
  "attempt_events req out =
     ProviderCall req out # (case out of None \<Rightarrow> [LogError (site req)] | Some c \<Rightarrow> [])"

text \<open>An event that belongs to the body of one stage: its provider calls and error lines.\<close>

fun inside :: "AgentType \<Rightarrow> event \<Rightarrow> bool" where
  "inside a (ProviderCall req out) = (issuer (site req) = a)"
| "inside a (LogError s) = (issuer s = a)"
| "inside a e = False"

text \<open>
  Call-order monitor.  A stage is entered by \<open>Invoke\<close> and left by the completion line
  that \<^verbatim>\<open>process\<close> logs immediately before it returns.  The monitor rejects a trace in
  which a stage is entered while another is running, in which Planning is entered
  before Research has returned or Personalization before Planning has returned, or
  in which a provider call happens outside the stage that issues it.
\<close>

datatype seq_state = Idle "AgentType list" | Running AgentType "AgentType list"

fun ready :: "AgentType \<Rightarrow> AgentType list \<Rightarrow> bool" where
  "ready RESEARCH returned = True"
| "ready PLANNING returned = (RESEARCH \<in> set returned)"
| "ready PERSONALIZATION returned = (PLANNING \<in> set returned)"

fun seq_step :: "seq_state \<Rightarrow> event \<Rightarrow> seq_state option" where
  "seq_step (Idle returned) (Invoke a inp) =
     (if ready a returned then Some (Running a returned) else None)"
| "seq_step (Running b returned) (Invoke a inp) = None"
| "seq_step (Running b returned) (LogAgentCompleted a t) =
     (if a = b then Some (Idle (a # returned)) else None)"
| "seq_step (Idle returned) (LogAgentCompleted a t) = None"
| "seq_step (Running b returned) (ProviderCall req out) =
     (if issuer (site req) = b then Some (Running b returned) else None)"
| "seq_step (Idle returned) (ProviderCall req out) = None"
| "seq_step st e = Some st"

fun seq_run :: "seq_state \<Rightarrow> event list \<Rightarrow> seq_state option" where
  "seq_run st [] = Some st"
| "seq_run st (e # es) = (case seq_step st e of None \<Rightarrow> None | Some st' \<Rightarrow> seq_run st' es)"

definition sequenced :: "event list \<Rightarrow> bool" where
  "sequenced es = (seq_run (Idle []) es \<noteq> None)"

text \<open>The inputs handed to the stages, in call order.\<close>

fun invocations :: "event list \<Rightarrow> (AgentType \<times> pydict) list" where
  "invocations [] = []"
| "invocations (Invoke a inp # es) = (a, inp) # invocations es"
| "invocations (e # es) = invocations es"




fun sentinel :: "subcall \<Rightarrow> pyval" where
  "sentinel Weather = PDict [(''weather_summary'', PStr ''Weather information unavailable'')]"
| "sentinel Events = PDict [(''events'', PStr ''Events information unavailable'')]"
| "sentinel Attractions =
     PDict [(''attractions'', PStr ''Attractions information unavailable'')]"
| "sentinel Accommodation =
     PDict [(''accommodation'', PStr ''Accommodation information unavailable'')]"
| "sentinel Transport = PDict [(''transport'', PStr ''Transport information unavailable'')]"
| "sentinel Synthesis = PDict [(''synthesis'', PStr ''Synthesis unavailable'')]"
| "sentinel Itinerary = PDict [(''itinerary'', PStr ''Itinerary generation failed'')]"
| "sentinel Costs = PDict [(''cost_analysis'', PStr ''Cost analysis unavailable'')]"
| "sentinel s = PNone"

text \<open>The keys each \<^verbatim>\<open>_process_internal\<close> subscripts (\<^verbatim>\<open>input_data[k]\<close>), and the ones
  it reads at all (Personalization reads \<^verbatim>\<open>research_data\<close> with \<^verbatim>\<open>.get\<close>).\<close>

fun required_keys :: "AgentType \<Rightarrow> string list" where
  "required_keys RESEARCH = [''destination'', ''constraints'']"
| "required_keys PLANNING = [''research_data'', ''constraints'', ''destination'']"
| "required_keys PERSONALIZATION = [''itinerary'', ''constraints'']"

fun keys_read :: "AgentType \<Rightarrow> string list" where
  "keys_read RESEARCH = [''destination'', ''constraints'']"
| "keys_read PLANNING = [''research_data'', ''constraints'', ''destination'']"
| "keys_read PERSONALIZATION = [''itinerary'', ''constraints'', ''research_data'']"

text \<open>Projections of a run \<open>(outcome, agent or orchestrator afterwards, world afterwards)\<close>.\<close>

definition outcome :: "'r \<times> 's \<times> world \<Rightarrow> 'r" where
  "outcome run = fst run"

definition state_after :: "'r \<times> 's \<times> world \<Rightarrow> 's" where
  "state_after run = fst (snd run)"

definition world_after :: "'r \<times> 's \<times> world \<Rightarrow> world" where
  "world_after run = snd (snd run)"

fun returned :: "error + 'a \<Rightarrow> bool" where
  "returned (Inr x) = True"
| "returned (Inl e) = False"

fun payload_of :: "error + pydict \<Rightarrow> pydict" where
  "payload_of (Inr p) = p"
| "payload_of (Inl e) = []"

text \<open>A nested dictionary of a payload (empty when the key is absent or holds another
  kind of value), and whether a sub-result has the shape \<^verbatim>\<open>{key: "text"}\<close>.\<close>

definition subdict :: "pydict \<Rightarrow> string \<Rightarrow> pydict" where
  "subdict p k = (case map_of p k of Some (PDict d) \<Rightarrow> d | _ \<Rightarrow> [])"

fun string_valued :: "pyval \<Rightarrow> bool" where
  "string_valued (PDict [(k, PStr s)]) = True"
| "string_valued v = False"



text \<open>The keys of the dictionaries \<^verbatim>\<open>plan_trip\<close> builds for the three stages.\<close>

fun passed_keys :: "AgentType \<Rightarrow> string list" where
  "passed_keys RESEARCH = [''destination'', ''constraints'']"
| "passed_keys PLANNING = [''destination'', ''constraints'', ''research_data'']"
| "passed_keys PERSONALIZATION =
     [''destination'', ''constraints'', ''research_data'', ''itinerary'']"


subsection \<open>Inputs within the reach of the arithmetic and of the prompts\<close>

text \<open>
  Constraints whose numbers the code can compute with: the duration and an integer
  budget convert to a float (for the nightly budget), and the traveler count can be
  written in decimal (a duration or a budget that converts can be).
\<close>

definition in_range :: "env \<Rightarrow> TravelConstraints \<Rightarrow> bool" where
  "in_range E c =
     (converts (duration_days c) \<and> fits E (traveler_count c) \<and>
      (case total_budget_usd c of IntNum i \<Rightarrow> converts i | FloatNum r \<Rightarrow> True))"

text \<open>
  What a stage evaluates outside every \<^verbatim>\<open>try\<close>, for an input whose constraints entry
  is \<open>asdict c\<close>: Research divides by the duration and writes the destination and the
  numbers into its prompts; Planning writes the destination and the numbers and
  serialises \<^verbatim>\<open>research_data\<close>; Personalization writes the traveler count and serialises
  \<^verbatim>\<open>research_data\<close>, the itinerary and, when the first sub-call fails, the itinerary
  wrapped as \<^verbatim>\<open>{"personalized": itinerary}\<close>.  The predicate says that none of it raises.
\<close>

fun prompts_defined :: "env \<Rightarrow> AgentType \<Rightarrow> pydict \<Rightarrow> TravelConstraints \<Rightarrow> bool" where
  "prompts_defined E RESEARCH inp c =
     (duration_days c \<noteq> 0 \<and> in_range E c \<and>
      returned (str_of E (get_default inp ''destination'' PNone)))"
| "prompts_defined E PLANNING inp c =
     (fits E (duration_days c) \<and> fits E (traveler_count c) \<and>
      returned (str_of E (num_pyval (total_budget_usd c))) \<and>
      returned (str_of E (get_default inp ''destination'' PNone)) \<and>
      returned (json_dumps E (get_default inp ''research_data'' PNone)))"
| "prompts_defined E PERSONALIZATION inp c =
     (fits E (traveler_count c) \<and>
      returned (json_dumps E (get_default inp ''research_data'' (PDict []))) \<and>
      returned (json_dumps E (PDict [(''personalized'', get_default inp ''itinerary'' PNone)])))"

section \<open>Example inputs\<close>

text \<open>The constraints of the test fixture (\<^verbatim>\<open>sample_constraints\<close> in
  \<^verbatim>\<open>tests/test_travel_planner.py\<close>), variants that break the data-model invariant, and
  one that satisfies it with a duration of \<open>2 ^ 1024\<close> days.\<close>

definition georgia :: TravelConstraints where
  "georgia = \<lparr>total_budget_usd = IntNum 1500, duration_days = 7, traveler_count = 2,
     preferences = [''culture'', ''food''], must_visit = None, avoid = None,
     travel_style = ''balanced''\<rparr>"

definition negative_budget :: TravelConstraints where
  "negative_budget = georgia\<lparr>total_budget_usd := IntNum (- 5)\<rparr>"

definition no_travelers :: TravelConstraints where
  "no_travelers = georgia\<lparr>traveler_count := 0\<rparr>"

definition zero_days :: TravelConstraints where
  "zero_days = georgia\<lparr>duration_days := 0\<rparr>"

definition long_trip :: TravelConstraints where
  "long_trip = georgia\<lparr>duration_days := 2 ^ 1024\<rparr>"

text \<open>Environments: every provider call answers; every provider call fails; only the
  weather call fails.  The clock advances by two seconds between readings; the
  interpreter has its default limits.\<close>

definition healthy :: env where
  "healthy = \<lparr>respond = (\<lambda>k req. Some ''ok''), wall_clock = (\<lambda>k. 2 * real k),
     int_max_str_digits = 4300, json_depth = 990, repr_depth = 990\<rparr>"

definition outage :: env where
  "outage = \<lparr>respond = (\<lambda>k req. None), wall_clock = (\<lambda>k. 2 * real k),
     int_max_str_digits = 4300, json_depth = 990, repr_depth = 990\<rparr>"


definition fresh :: world where
  "fresh = \<lparr>calls = 0, reads = 0, trace = []\<rparr>"

definition research_input :: pydict where
  "research_input = [(''destination'', PStr ''Georgia''), (''constraints'', asdict georgia)]"

definition zero_input :: pydict where
  "zero_input = [(''destination'', PStr ''Georgia''), (''constraints'', asdict zero_days)]"

section \<open>Basic facts about the model\<close>

lemma str_list_map_PStr: "str_list (map PStr xs) = Some xs"
  by (induction xs) simp_all

lemma as_opt_strs_opt_strs: "as_opt_strs (opt_strs v) = Some v"
  by (cases v) (simp_all add: opt_strs_def str_list_map_PStr)

lemma as_number_num_pyval: "as_number (num_pyval b) = Some b"
  by (cases b) simp_all

lemma TravelConstraints_init_asdict: "TravelConstraints_init (asdict c) = Inr c"
  by (simp add: TravelConstraints_init_def asdict_def field_names_def get_default_def
      as_opt_strs_opt_strs str_list_map_PStr as_number_num_pyval)

subsection \<open>The interpreter's limits\<close>

lemma two_pow_1024: "(2::int) ^ 1024 < 10 ^ 640"
proof -
  have "(1024::nat) = 4 * 256" by simp
  then have "(2::int) ^ 1024 = 2 ^ (4 * 256)" by (rule arg_cong)
  also have "\<dots> = (2 ^ 4) ^ 256" by (rule power_mult)
  also have "\<dots> \<le> (10 ^ 2) ^ 256" by (rule power_mono) simp_all
  also have "\<dots> = (10::int) ^ (2 * 256)" by (rule power_mult [symmetric])
  also have "\<dots> < 10 ^ 640" by (rule power_strict_increasing) simp_all
  finally show ?thesis .
qed

lemma fits_bound: "\<bar>i\<bar> \<le> 2 ^ 1024 \<Longrightarrow> fits E i"
proof -
  assume i: "\<bar>i\<bar> \<le> 2 ^ 1024"
  show "fits E i"
  proof (cases "digit_limit E")
    case None
    then show ?thesis by (simp add: fits_def)
  next
    case (Some n)
    then have "640 \<le> n"
      by (auto simp: digit_limit_def split: if_splits)
    then have "(10::int) ^ 640 \<le> 10 ^ n"
      by (intro power_increasing) simp_all
    with i two_pow_1024 have "\<bar>i\<bar> < 10 ^ n" by linarith
    with Some show ?thesis by (simp add: fits_def)
  qed
qed

lemma converts_bound: "converts i \<Longrightarrow> \<bar>i\<bar> \<le> 2 ^ 1024"
proof -
  assume "converts i"
  then have "\<bar>i\<bar> < 2 ^ 1024 - 2 ^ 970" by (simp only: converts_def)
  moreover have "(0::int) \<le> 2 ^ 970" by simp
  ultimately show ?thesis by linarith
qed

lemma converts_fits: "converts i \<Longrightarrow> fits E i"
  by (rule fits_bound) (rule converts_bound)

lemma json_limit_Suc: "\<exists>m. json_limit E = Suc (Suc (Suc m))"
  by (cases "json_depth E \<le> 3")
     (auto simp: json_limit_def max_def eval_nat_numeral intro: exI[of _ "json_depth E - 3"])

lemma repr_limit_Suc: "\<exists>m. repr_limit E = Suc (Suc (Suc m))"
  by (cases "repr_depth E \<le> 3")
     (auto simp: repr_limit_def max_def eval_nat_numeral intro: exI[of _ "repr_depth E - 3"])

lemma first_error_single [simp]: "first_error [r] = r"
  by (cases r) simp_all

lemma first_error_strs [simp]: "first_error (map (\<lambda>v. walk E js d v) (map PStr xs)) = None"
  by (induction xs) simp_all

lemma first_error_strs' [simp]: "first_error (map (walk E js d \<circ> PStr) xs) = None"
  by (induction xs) simp_all

lemma walk_opt_strs [simp]: "walk E js (Suc d) (opt_strs v) = None"
  by (cases v) (simp_all add: opt_strs_def)

lemma walk_Suc: "walk E js d v = None \<Longrightarrow> walk E js (Suc d) v = None"
proof (induction E js d v rule: walk.induct)
  case (7 E js d vs)
  have h: "first_error (map (\<lambda>v. walk E js (Suc d) v) vs) = None"
    if "first_error (map (\<lambda>v. walk E js d v) vs) = None"
       "\<And>v. v \<in> set vs \<Longrightarrow> walk E js d v = None \<Longrightarrow> walk E js (Suc d) v = None"
    for vs
    using that
  proof (induction vs)
    case Nil
    then show ?case by simp
  next
    case (Cons a vs)
    then show ?case by (cases "walk E js d a") simp_all
  qed
  from 7(2) have "first_error (map (\<lambda>v. walk E js d v) vs) = None" by simp
  from h[OF this 7(1)] show ?case by simp
next
  case (9 E js d kvs)
  have h: "first_error (map (\<lambda>kv. walk E js (Suc d) (snd kv)) kvs) = None"
    if "first_error (map (\<lambda>kv. walk E js d (snd kv)) kvs) = None"
       "\<And>kv. kv \<in> set kvs \<Longrightarrow> walk E js d (snd kv) = None \<Longrightarrow> walk E js (Suc d) (snd kv) = None"
    for kvs
    using that
  proof (induction kvs)
    case Nil
    then show ?case by simp
  next
    case (Cons a kvs)
    then show ?case by (cases "walk E js d (snd a)") simp_all
  qed
  from 9(2) have "first_error (map (\<lambda>kv. walk E js d (snd kv)) kvs) = None" by simp
  from h[OF this 9(1)] show ?case by simp
qed simp_all

lemma str_of_returned: "returned (str_of E v) = (str_of E v = Inr v)"
  by (simp add: str_of_def split: option.split)

lemma json_dumps_returned: "returned (json_dumps E v) = (json_dumps E v = Inr v)"
  by (simp add: json_dumps_def split: option.split)

lemma str_of_PStr [simp]: "str_of E (PStr s) = Inr (PStr s)"
  by (simp add: str_of_def)

lemma str_of_PFloat [simp]: "str_of E (PFloat r) = Inr (PFloat r)"
  by (simp add: str_of_def)

lemma str_of_PInt: "str_of E (PInt i) = (if fits E i then Inr (PInt i) else Inl ValueError)"
  by (simp add: str_of_def)

lemma str_of_budget:
  "(case b of IntNum i \<Rightarrow> fits E i | FloatNum r \<Rightarrow> True) \<Longrightarrow>
     str_of E (num_pyval b) = Inr (num_pyval b)"
  by (cases b) (simp_all add: str_of_PInt)

lemma str_of_result [simp]:
  "str_of E (PDict [(k, case out of None \<Rightarrow> PStr a | Some c \<Rightarrow> PStr c)]) =
     Inr (PDict [(k, case out of None \<Rightarrow> PStr a | Some c \<Rightarrow> PStr c)])"
proof -
  from repr_limit_Suc obtain m where "repr_limit E = Suc (Suc (Suc m))" ..
  then show ?thesis by (cases out) (simp_all add: str_of_def)
qed

lemma str_of_fallback [simp]: "str_of E (PDict [(k, PStr a)]) = Inr (PDict [(k, PStr a)])"
proof -
  from repr_limit_Suc obtain m where "repr_limit E = Suc (Suc (Suc m))" ..
  then show ?thesis by (simp add: str_of_def)
qed

lemma str_of_asdict:
  assumes "fits E (duration_days c)" and "fits E (traveler_count c)"
      and "case total_budget_usd c of IntNum i \<Rightarrow> fits E i | FloatNum r \<Rightarrow> True"
  shows "str_of E (asdict c) = Inr (asdict c)"
proof -
  from repr_limit_Suc obtain m where "repr_limit E = Suc (Suc (Suc m))" ..
  with assms show ?thesis
    by (cases "total_budget_usd c") (simp_all add: str_of_def asdict_def)
qed

lemma json_dumps_result [simp]:
  "json_dumps E (PDict [(k, case out of None \<Rightarrow> PStr a | Some c \<Rightarrow> PStr c)]) =
     Inr (PDict [(k, case out of None \<Rightarrow> PStr a | Some c \<Rightarrow> PStr c)])"
proof -
  from json_limit_Suc obtain m where "json_limit E = Suc (Suc (Suc m))" ..
  then show ?thesis by (cases out) (simp_all add: json_dumps_def)
qed

lemma json_dumps_fallback [simp]: "json_dumps E (PDict [(k, PStr a)]) = Inr (PDict [(k, PStr a)])"
proof -
  from json_limit_Suc obtain m where "json_limit E = Suc (Suc (Suc m))" ..
  then show ?thesis by (simp add: json_dumps_def)
qed

lemma json_dumps_result2 [simp]:
  "json_dumps E (PDict [(k, case out of None \<Rightarrow>
        PDict [(k', case out' of None \<Rightarrow> PStr a | Some c \<Rightarrow> PStr c)] | Some c \<Rightarrow> PStr c)]) =
     Inr (PDict [(k, case out of None \<Rightarrow>
        PDict [(k', case out' of None \<Rightarrow> PStr a | Some c \<Rightarrow> PStr c)] | Some c \<Rightarrow> PStr c)])"
proof -
  from json_limit_Suc obtain m where "json_limit E = Suc (Suc (Suc m))" ..
  then show ?thesis by (cases out; cases out') (simp_all add: json_dumps_def)
qed

lemma json_dumps_result3 [simp]:
  "json_dumps E (PDict [(k0, PDict [(k, case out of None \<Rightarrow>
        PDict [(k', case out' of None \<Rightarrow> PStr a | Some c \<Rightarrow> PStr c)] | Some c \<Rightarrow> PStr c)])]) =
     Inr (PDict [(k0, PDict [(k, case out of None \<Rightarrow>
        PDict [(k', case out' of None \<Rightarrow> PStr a | Some c \<Rightarrow> PStr c)] | Some c \<Rightarrow> PStr c)])])"
proof -
  from json_limit_Suc obtain m where "json_limit E = Suc (Suc (Suc m))" ..
  then show ?thesis by (cases out; cases out') (simp_all add: json_dumps_def)
qed

lemma json_dumps_nested [simp]:
  "json_dumps E (PDict [(k, PDict [(k', PStr a)])]) = Inr (PDict [(k, PDict [(k', PStr a)])])"
  "json_dumps E (PDict [(k0, PDict [(k, PDict [(k', PStr a)])])]) =
     Inr (PDict [(k0, PDict [(k, PDict [(k', PStr a)])])])"
proof -
  from json_limit_Suc obtain m where m: "json_limit E = Suc (Suc (Suc m))" ..
  show "json_dumps E (PDict [(k, PDict [(k', PStr a)])]) =
      Inr (PDict [(k, PDict [(k', PStr a)])])"
    by (simp add: json_dumps_def m)
  show "json_dumps E (PDict [(k0, PDict [(k, PDict [(k', PStr a)])])]) =
      Inr (PDict [(k0, PDict [(k, PDict [(k', PStr a)])])])"
    by (simp add: json_dumps_def m)
qed

lemma json_dumps_unwrap:
  "json_dumps E (PDict [(k, v)]) = Inr (PDict [(k, v)]) \<Longrightarrow> json_dumps E v = Inr v"
proof -
  assume a: "json_dumps E (PDict [(k, v)]) = Inr (PDict [(k, v)])"
  from json_limit_Suc obtain m where m: "json_limit E = Suc (Suc (Suc m))" ..
  from a have "walk E True (Suc (Suc m)) v = None"
    by (simp add: json_dumps_def m split: option.splits)
  then have "walk E True (Suc (Suc (Suc m))) v = None" by (rule walk_Suc)
  then show ?thesis by (simp add: json_dumps_def m)
qed

lemma json_dumps_wrap_result:
  "json_dumps E (PDict [(k, v)]) = Inr (PDict [(k, v)]) \<Longrightarrow>
   json_dumps E (PDict [(k, case out of None \<Rightarrow> v | Some c \<Rightarrow> PStr c)]) =
     Inr (PDict [(k, case out of None \<Rightarrow> v | Some c \<Rightarrow> PStr c)])"
  by (cases out) simp_all

subsection \<open>Provider calls\<close>

lemma attempt_eq:
  "attempt E req k fb w =
     (PDict [(k, case respond E (calls w) req of None \<Rightarrow> fb | Some c \<Rightarrow> PStr c)],
      w\<lparr>calls := Suc (calls w),
        trace := trace w @ attempt_events req (respond E (calls w) req)\<rparr>)"
  by (simp add: attempt_def provider_call_def emit_def attempt_events_def Let_def
      split: option.split)

lemma delegated_eq:
  "delegated E s parts k fb w =
     (case collect parts of
        Inl e \<Rightarrow> (Inl e, w)
      | Inr args \<Rightarrow>
          (Inr (PDict [(k, case respond E (calls w) (Prompt s args) of
                             None \<Rightarrow> fb | Some c \<Rightarrow> PStr c)]),
           w\<lparr>calls := Suc (calls w),
             trace := trace w @
               attempt_events (Prompt s args) (respond E (calls w) (Prompt s args))\<rparr>))"
  by (simp add: delegated_def attempt_eq split: sum.split)

lemma guarded_eq:
  "guarded E s parts k fb w =
     (case collect parts of
        Inl e \<Rightarrow> (PDict [(k, fb)], w\<lparr>trace := trace w @ [LogError s]\<rparr>)
      | Inr args \<Rightarrow>
          (PDict [(k, case respond E (calls w) (Prompt s args) of
                        None \<Rightarrow> fb | Some c \<Rightarrow> PStr c)],
           w\<lparr>calls := Suc (calls w),
             trace := trace w @
               attempt_events (Prompt s args) (respond E (calls w) (Prompt s args))\<rparr>))"
  by (simp add: guarded_def attempt_eq emit_def split: sum.split)

lemma inside_attempt_events:
  "issuer (site req) = a \<Longrightarrow> list_all (inside a) (attempt_events req out)"
  by (simp add: attempt_events_def split: option.split)

lemmas subcall_defs =
  get_weather_info_def get_local_events_def get_attractions_def get_accommodation_info_def
  get_transport_info_def synthesize_information_def generate_itinerary_def
  optimize_logistics_def analyze_costs_def personalize_itinerary_def
  add_contextual_recommendations_def

subsection \<open>What a stage does to the world\<close>

lemma research_internal_world:
  assumes "research_process_internal E self inp w = (res, w')"
  shows "reads w' = reads w \<and>
         (\<exists>evs. trace w' = trace w @ evs \<and> list_all (inside RESEARCH) evs)"
  using assms
  by (auto simp: research_process_internal_def subcall_defs delegated_eq guarded_eq Let_def
      inside_attempt_events simp del: collect.simps
      split: sum.splits if_splits)

lemma planning_internal_world:
  assumes "planning_process_internal E self inp w = (res, w')"
  shows "reads w' = reads w \<and>
         (\<exists>evs. trace w' = trace w @ evs \<and> list_all (inside PLANNING) evs)"
  using assms
  by (auto simp: planning_process_internal_def subcall_defs delegated_eq Let_def
      inside_attempt_events simp del: collect.simps
      split: sum.splits if_splits)

lemma personalization_internal_world:
  assumes "personalization_process_internal E self inp w = (res, w')"
  shows "reads w' = reads w \<and>
         (\<exists>evs. trace w' = trace w @ evs \<and> list_all (inside PERSONALIZATION) evs)"
  using assms
  by (auto simp: personalization_process_internal_def subcall_defs delegated_eq Let_def
      inside_attempt_events simp del: collect.simps
      split: sum.splits if_splits)

lemma process_internal_world:
  assumes "process_internal E cls self inp w = (res, w')"
  shows "reads w' = reads w \<and>
         (\<exists>evs. trace w' = trace w @ evs \<and> list_all (inside cls) evs)"
  using assms research_internal_world planning_internal_world personalization_internal_world
  by (cases cls) simp_all

lemma process_internal_stale_time:
  assumes "process_internal E cls self inp w = (Inr payload, w')"
  shows "map_of payload ''processing_time'' = Some (PFloat (processing_time self))"
  using assms
  by (cases cls)
     (auto simp: research_process_internal_def planning_process_internal_def
        personalization_process_internal_def Let_def split_beta
        split: sum.splits if_splits prod.splits)

lemma research_internal_key:
  assumes "research_process_internal E self inp w = (Inr payload, w')"
  shows "\<exists>v. map_of payload ''research_data'' = Some v"
  using assms
  by (auto simp: research_process_internal_def Let_def split_beta
        split: sum.splits if_splits prod.splits)

lemma planning_internal_key:
  assumes "planning_process_internal E self inp w = (Inr payload, w')"
  shows "\<exists>v. map_of payload ''itinerary'' = Some v"
  using assms
  by (auto simp: planning_process_internal_def Let_def split_beta
        split: sum.splits if_splits prod.splits)

subsection \<open>Runs in which nothing outside a \<^verbatim>\<open>try\<close> raises\<close>

lemma in_range_fits:
  assumes "in_range E c"
  shows "fits E (duration_days c)" and "fits E (traveler_count c)"
    and "case total_budget_usd c of IntNum i \<Rightarrow> fits E i | FloatNum r \<Rightarrow> True"
  using assms by (auto simp: in_range_def converts_fits split: number.splits)

lemma budget_per_night_ok:
  assumes "duration_days c \<noteq> 0" and "in_range E c"
  shows "budget_per_night c =
           Inr (num_val (total_budget_usd c) * (3 / 10) / of_int (duration_days c))"
  using assms
  by (cases "total_budget_usd c") (simp_all add: budget_per_night_def to_float_def in_range_def)

lemma research_internal_ok:
  assumes "map_of inp ''destination'' = Some d"
      and "map_of inp ''constraints'' = Some (asdict c)"
      and "str_of E d = Inr d"
      and "duration_days c \<noteq> 0"
      and "in_range E c"
  shows "\<exists>rd raw w'.
      research_process_internal E self inp w =
        (Inr [(''destination'', d), (''research_data'', rd), (''raw_data'', raw),
              (''processing_time'', PFloat (processing_time self))], w')
      \<and> calls w' = calls w + 6 \<and> json_dumps E rd = Inr rd"
proof -
  note f = in_range_fits[OF assms(5)]
  note b = budget_per_night_ok[OF assms(4,5)]
  note a = str_of_asdict[OF f]
  from assms(1-3) f(1,2) b a show ?thesis
    by (simp add: research_process_internal_def subcall_defs delegated_eq guarded_eq Let_def
        getitem_def item_str_def TravelConstraints_init_asdict str_of_PInt)
qed

lemma planning_internal_ok:
  assumes "map_of inp ''research_data'' = Some rd"
      and "map_of inp ''constraints'' = Some (asdict c)"
      and "map_of inp ''destination'' = Some d"
      and "str_of E d = Inr d"
      and "json_dumps E rd = Inr rd"
      and "fits E (duration_days c)"
      and "fits E (traveler_count c)"
      and "str_of E (num_pyval (total_budget_usd c)) = Inr (num_pyval (total_budget_usd c))"
  shows "\<exists>itin cost w'.
      planning_process_internal E self inp w =
        (Inr [(''destination'', d), (''itinerary'', itin), (''cost_analysis'', cost),
              (''optimization_metrics'', calculate_metrics itin c),
              (''processing_time'', PFloat (processing_time self))], w')
      \<and> calls w' = calls w + 3
      \<and> json_dumps E (PDict [(''personalized'', itin)]) = Inr (PDict [(''personalized'', itin)])"
  using assms
  by (simp add: planning_process_internal_def subcall_defs delegated_eq Let_def
      getitem_def TravelConstraints_init_asdict str_of_PInt)

lemma personalization_internal_ok:
  assumes "map_of inp ''itinerary'' = Some it"
      and "map_of inp ''constraints'' = Some (asdict c)"
      and "json_dumps E (PDict [(''personalized'', it)]) = Inr (PDict [(''personalized'', it)])"
      and "json_dumps E (get_default inp ''research_data'' (PDict [])) =
             Inr (get_default inp ''research_data'' (PDict []))"
      and "fits E (traveler_count c)"
  shows "\<exists>enh pnotes w'.
      personalization_process_internal E self inp w =
        (Inr [(''personalized_itinerary'', enh),
              (''personalization_notes'', pnotes),
              (''processing_time'', PFloat (processing_time self))], w')
      \<and> calls w' = calls w + 2 \<and> generate_notes E c = Inr pnotes"
proof -
  note u = json_dumps_unwrap[OF assms(3)]
  note v = json_dumps_wrap_result[OF assms(3)]
  from assms(1,2,4,5) u v show ?thesis
    by (simp add: personalization_process_internal_def subcall_defs delegated_eq Let_def
        getitem_def TravelConstraints_init_asdict str_of_PInt generate_notes_def)
qed

lemma process_run:
  assumes run: "process E cls self inp w = (res, self', w')"
  shows "\<exists>evs. list_all (inside cls) evs \<and>
           trace w' = trace w @ Invoke cls inp # evs @
             (case res of Inl e \<Rightarrow> []
              | Inr p \<Rightarrow> [LogAgentCompleted cls (processing_time self')]) \<and>
           (case res of
              Inl e \<Rightarrow> self' = self \<and> reads w' = Suc (reads w)
            | Inr p \<Rightarrow>
                reads w' = Suc (Suc (reads w)) \<and>
                processing_time self' = wall_clock E (Suc (reads w)) - wall_clock E (reads w) \<and>
                map_of p ''processing_time'' = Some (PFloat (processing_time self)))"
proof -
  define w1 where "w1 = snd (time_time E (emit (Invoke cls inp) w))"
  obtain r w2 where int: "process_internal E cls self inp w1 = (r, w2)"
    by (cases "process_internal E cls self inp w1")
  from process_internal_world[OF int] obtain evs
    where rd: "reads w2 = reads w1" and tr: "trace w2 = trace w1 @ evs"
      and ins: "list_all (inside cls) evs"
    by blast
  have w1: "reads w1 = Suc (reads w)" "trace w1 = trace w @ [Invoke cls inp]"
    by (simp_all add: w1_def time_time_def emit_def)
  show ?thesis
  proof (cases r)
    case (Inl e)
    with run int have "res = Inl e" "self' = self" "w' = w2"
      by (simp_all add: process_def w1_def split_beta)
    with rd tr ins w1 show ?thesis by auto
  next
    case (Inr p)
    with run int have res: "res = Inr p"
      and s': "self' = self\<lparr>processing_time := wall_clock E (reads w2) - wall_clock E (reads w)\<rparr>"
      and w': "w' = emit (LogAgentCompleted cls (processing_time self'))
                  (w2\<lparr>reads := Suc (reads w2)\<rparr>)"
      by (auto simp: process_def w1_def split_beta time_time_def emit_def Let_def)
    from int Inr have "map_of p ''processing_time'' = Some (PFloat (processing_time self))"
      using process_internal_stale_time by blast
    with res s' w' rd tr ins w1 show ?thesis by (auto simp: emit_def)
  qed
qed

lemma process_calls:
  assumes "process E cls self inp w = (res, self', w')"
      and "process_internal E cls self inp (snd (time_time E (emit (Invoke cls inp) w)))
             = (r, w2)"
  shows "calls w' = calls w2 \<and> res = r"
  using assms
  by (cases r) (auto simp: process_def split_beta time_time_def emit_def Let_def)


lemma process_of_internal_ok:
  assumes int: "\<And>w1. \<exists>p w2. process_internal E cls self inp w1 = (Inr p, w2) \<and>
                   calls w2 = calls w1 + n \<and> Q p"
  obtains p a' w' evs where
    "process E cls self inp w = (Inr p, a', w')" "Q p"
    "calls w' = calls w + n" "reads w' = reads w + 2"
    "processing_time a' = wall_clock E (Suc (reads w)) - wall_clock E (reads w)"
    "trace w' = trace w @ Invoke cls inp # evs @ [LogAgentCompleted cls (processing_time a')]"
    "list_all (inside cls) evs"
    "map_of p ''processing_time'' = Some (PFloat (processing_time self))"
proof -
  define w1 where "w1 = snd (time_time E (emit (Invoke cls inp) w))"
  from int[of w1] obtain p w2
    where i: "process_internal E cls self inp w1 = (Inr p, w2)"
      and c: "calls w2 = calls w1 + n" and q: "Q p"
    by blast
  obtain res a' w' where run: "process E cls self inp w = (res, a', w')"
    by (cases "process E cls self inp w")
  from process_calls[OF run i[unfolded w1_def]] have res: "res = Inr p" and c': "calls w' = calls w2"
    by simp_all
  have c1: "calls w1 = calls w"
    by (simp add: w1_def time_time_def emit_def)
  from process_run[OF run] res obtain evs where
    "list_all (inside cls) evs"
    "trace w' = trace w @ Invoke cls inp # evs @ [LogAgentCompleted cls (processing_time a')]"
    "reads w' = Suc (Suc (reads w))"
    "processing_time a' = wall_clock E (Suc (reads w)) - wall_clock E (reads w)"
    "map_of p ''processing_time'' = Some (PFloat (processing_time self))"
    by auto
  with run res q c c' c1 show thesis
    by (intro that[of p a' w' evs]) simp_all
qed
lemma plan_trip_ok:
  assumes dd: "duration_days c \<noteq> 0" and ir: "in_range E c"
  obtains ro po qo rd raw itin cost enh pnotes a1 a2 a3 w' evR evP evQ where
    "plan_trip E self d c w =
       (Inr [(''destination'', PStr d),
             (''constraints'', asdict c),
             (''research_output'', PDict ro),
             (''planning_output'', PDict po),
             (''personalization_output'', PDict qo),
             (''total_processing_time'',
                PFloat (processing_time a1 + processing_time a2 + processing_time a3)),
             (''agent_times'', PDict
                [(''research'', PFloat (processing_time a1)),
                 (''planning'', PFloat (processing_time a2)),
                 (''personalization'', PFloat (processing_time a3))])],
        \<lparr>research_agent = a1, planning_agent = a2, personalization_agent = a3\<rparr>, w')"
    "ro = [(''destination'', PStr d), (''research_data'', rd), (''raw_data'', raw),
           (''processing_time'', PFloat (processing_time (research_agent self)))]"
    "po = [(''destination'', PStr d), (''itinerary'', itin), (''cost_analysis'', cost),
           (''optimization_metrics'', calculate_metrics itin c),
           (''processing_time'', PFloat (processing_time (planning_agent self)))]"
    "qo = [(''personalized_itinerary'', enh),
           (''personalization_notes'', pnotes),
           (''processing_time'', PFloat (processing_time (personalization_agent self)))]"
    "processing_time a1 = wall_clock E (reads w + 1) - wall_clock E (reads w)"
    "processing_time a2 = wall_clock E (reads w + 3) - wall_clock E (reads w + 2)"
    "processing_time a3 = wall_clock E (reads w + 5) - wall_clock E (reads w + 4)"
    "calls w' = calls w + 11" "reads w' = reads w + 6"
    "trace w' = trace w @
       [LogStarting d, LogPhase RESEARCH,
        Invoke RESEARCH [(''destination'', PStr d), (''constraints'', asdict c)]] @ evR @
       [LogAgentCompleted RESEARCH (processing_time a1), LogPhase PLANNING,
        Invoke PLANNING [(''destination'', PStr d), (''constraints'', asdict c),
                         (''research_data'', rd)]] @ evP @
       [LogAgentCompleted PLANNING (processing_time a2), LogPhase PERSONALIZATION,
        Invoke PERSONALIZATION [(''destination'', PStr d), (''constraints'', asdict c),
                                (''research_data'', rd), (''itinerary'', itin)]] @ evQ @
       [LogAgentCompleted PERSONALIZATION (processing_time a3),
        LogTripCompleted (processing_time a1 + processing_time a2 + processing_time a3)]"
    "list_all (inside RESEARCH) evR" "list_all (inside PLANNING) evP"
    "list_all (inside PERSONALIZATION) evQ"
    "generate_notes E c = Inr pnotes"
proof -
  note f = in_range_fits[OF ir]
  note b = str_of_budget[OF f(3)]
  let ?inR = "[(''destination'', PStr d), (''constraints'', asdict c)]"
  define w1 where "w1 = emit (LogPhase RESEARCH) (emit (LogStarting d) w)"
  have "\<And>w1. \<exists>p w2. process_internal E RESEARCH (research_agent self) ?inR w1 = (Inr p, w2) \<and>
          calls w2 = calls w1 + 6 \<and>
          (\<exists>rd raw. p = [(''destination'', PStr d), (''research_data'', rd), (''raw_data'', raw),
             (''processing_time'', PFloat (processing_time (research_agent self)))] \<and>
             json_dumps E rd = Inr rd)"
    using research_internal_ok[of ?inR "PStr d" c E "research_agent self"] dd ir
    by simp blast
  from process_of_internal_ok[where w = w1, OF this] obtain ro a1 w2 evR where
    R: "process E RESEARCH (research_agent self) ?inR w1 = (Inr ro, a1, w2)"
    and QR: "\<exists>rd raw. ro = [(''destination'', PStr d), (''research_data'', rd),
             (''raw_data'', raw),
             (''processing_time'', PFloat (processing_time (research_agent self)))] \<and>
             json_dumps E rd = Inr rd"
    and R': "calls w2 = calls w1 + 6" "reads w2 = reads w1 + 2"
      "processing_time a1 = wall_clock E (Suc (reads w1)) - wall_clock E (reads w1)"
      "trace w2 = trace w1 @ Invoke RESEARCH ?inR # evR @
          [LogAgentCompleted RESEARCH (processing_time a1)]"
      "list_all (inside RESEARCH) evR"
    by metis
  from QR obtain rd raw where
    ro: "ro = [(''destination'', PStr d), (''research_data'', rd), (''raw_data'', raw),
             (''processing_time'', PFloat (processing_time (research_agent self)))]"
    and jr: "json_dumps E rd = Inr rd"
    by (elim exE conjE)
  let ?inP = "[(''destination'', PStr d), (''constraints'', asdict c), (''research_data'', rd)]"
  define w3 where "w3 = emit (LogPhase PLANNING) w2"
  have "\<And>w1. \<exists>p w2. process_internal E PLANNING (planning_agent self) ?inP w1 = (Inr p, w2) \<and>
          calls w2 = calls w1 + 3 \<and>
          (\<exists>itin cost. p = [(''destination'', PStr d), (''itinerary'', itin),
             (''cost_analysis'', cost), (''optimization_metrics'', calculate_metrics itin c),
             (''processing_time'', PFloat (processing_time (planning_agent self)))] \<and>
             json_dumps E (PDict [(''personalized'', itin)]) =
               Inr (PDict [(''personalized'', itin)]))"
    using planning_internal_ok[of ?inP rd c "PStr d" E "planning_agent self"] jr f(1,2) b
    by simp blast
  from process_of_internal_ok[where w = w3, OF this] obtain po a2 w4 evP where
    P: "process E PLANNING (planning_agent self) ?inP w3 = (Inr po, a2, w4)"
    and QP: "\<exists>itin cost. po = [(''destination'', PStr d), (''itinerary'', itin),
             (''cost_analysis'', cost), (''optimization_metrics'', calculate_metrics itin c),
             (''processing_time'', PFloat (processing_time (planning_agent self)))] \<and>
             json_dumps E (PDict [(''personalized'', itin)]) =
               Inr (PDict [(''personalized'', itin)])"
    and P': "calls w4 = calls w3 + 3" "reads w4 = reads w3 + 2"
      "processing_time a2 = wall_clock E (Suc (reads w3)) - wall_clock E (reads w3)"
      "trace w4 = trace w3 @ Invoke PLANNING ?inP # evP @
          [LogAgentCompleted PLANNING (processing_time a2)]"
      "list_all (inside PLANNING) evP"
    by metis
  from QP obtain itin cost where
    po: "po = [(''destination'', PStr d), (''itinerary'', itin),
             (''cost_analysis'', cost), (''optimization_metrics'', calculate_metrics itin c),
             (''processing_time'', PFloat (processing_time (planning_agent self)))]"
    and ji: "json_dumps E (PDict [(''personalized'', itin)]) =
               Inr (PDict [(''personalized'', itin)])"
    by (elim exE conjE)
  let ?inQ = "[(''destination'', PStr d), (''constraints'', asdict c), (''research_data'', rd),
               (''itinerary'', itin)]"
  define w5 where "w5 = emit (LogPhase PERSONALIZATION) w4"
  have "\<And>w1. \<exists>p w2. process_internal E PERSONALIZATION (personalization_agent self) ?inQ w1
            = (Inr p, w2) \<and>
          calls w2 = calls w1 + 2 \<and>
          (\<exists>enh pnotes. p = [(''personalized_itinerary'', enh),
             (''personalization_notes'', pnotes),
             (''processing_time'', PFloat (processing_time (personalization_agent self)))] \<and>
             generate_notes E c = Inr pnotes)"
    using personalization_internal_ok[of ?inQ itin c E "personalization_agent self"] jr ji f(2)
    by (simp add: get_default_def) blast
  from process_of_internal_ok[where w = w5, OF this] obtain qo a3 w6 evQ where
    Q: "process E PERSONALIZATION (personalization_agent self) ?inQ w5 = (Inr qo, a3, w6)"
    and QQ: "\<exists>enh pnotes. qo = [(''personalized_itinerary'', enh),
             (''personalization_notes'', pnotes),
             (''processing_time'', PFloat (processing_time (personalization_agent self)))] \<and>
             generate_notes E c = Inr pnotes"
    and Q': "calls w6 = calls w5 + 2" "reads w6 = reads w5 + 2"
      "processing_time a3 = wall_clock E (Suc (reads w5)) - wall_clock E (reads w5)"
      "trace w6 = trace w5 @ Invoke PERSONALIZATION ?inQ # evQ @
          [LogAgentCompleted PERSONALIZATION (processing_time a3)]"
      "list_all (inside PERSONALIZATION) evQ"
    by metis
  from QQ obtain enh pnotes where
    qo: "qo = [(''personalized_itinerary'', enh),
             (''personalization_notes'', pnotes),
             (''processing_time'', PFloat (processing_time (personalization_agent self)))]"
    and gn: "generate_notes E c = Inr pnotes"
    by (elim exE conjE)
  define total where "total = processing_time a1 + processing_time a2 + processing_time a3"
  define w7 where "w7 = emit (LogTripCompleted total) w6"
  have rd: "getitem ro ''research_data'' = Inr rd" and it: "getitem po ''itinerary'' = Inr itin"
    by (simp_all add: ro po getitem_def)
  have run: "plan_trip E self d c w =
       (Inr [(''destination'', PStr d),
             (''constraints'', asdict c),
             (''research_output'', PDict ro),
             (''planning_output'', PDict po),
             (''personalization_output'', PDict qo),
             (''total_processing_time'', PFloat total),
             (''agent_times'', PDict
                [(''research'', PFloat (processing_time a1)),
                 (''planning'', PFloat (processing_time a2)),
                 (''personalization'', PFloat (processing_time a3))])],
        \<lparr>research_agent = a1, planning_agent = a2, personalization_agent = a3\<rparr>, w7)"
    unfolding plan_trip_def w7_def total_def
    using R[unfolded w1_def] P[unfolded w3_def] Q[unfolded w5_def] rd it
    by (simp add: Let_def)
  have w: "calls w1 = calls w" "reads w1 = reads w" "trace w1 = trace w @ [LogStarting d, LogPhase RESEARCH]"
    "calls w3 = calls w2" "reads w3 = reads w2" "trace w3 = trace w2 @ [LogPhase PLANNING]"
    "calls w5 = calls w4" "reads w5 = reads w4" "trace w5 = trace w4 @ [LogPhase PERSONALIZATION]"
    "calls w7 = calls w6" "reads w7 = reads w6" "trace w7 = trace w6 @ [LogTripCompleted total]"
    by (simp_all add: w1_def w3_def w5_def w7_def emit_def)
  have rds: "Suc (reads w1) = reads w + 1" "reads w3 = reads w + 2"
    "Suc (reads w3) = reads w + 3" "reads w5 = reads w + 4" "Suc (reads w5) = reads w + 5"
    "reads w7 = reads w + 6"
    using R'(2) P'(2) Q'(2) w by simp_all
  have times:
    "processing_time a1 = wall_clock E (reads w + 1) - wall_clock E (reads w)"
    "processing_time a2 = wall_clock E (reads w + 3) - wall_clock E (reads w + 2)"
    "processing_time a3 = wall_clock E (reads w + 5) - wall_clock E (reads w + 4)"
    using R'(2,3) P'(2,3) Q'(2,3) w(2,5,8) by (simp_all add: eval_nat_numeral)
  have cl: "calls w7 = calls w + 11"
    using R'(1) P'(1) Q'(1) w by simp
  have tr: "trace w7 = trace w @
       [LogStarting d, LogPhase RESEARCH, Invoke RESEARCH ?inR] @ evR @
       [LogAgentCompleted RESEARCH (processing_time a1), LogPhase PLANNING,
        Invoke PLANNING ?inP] @ evP @
       [LogAgentCompleted PLANNING (processing_time a2), LogPhase PERSONALIZATION,
        Invoke PERSONALIZATION ?inQ] @ evQ @
       [LogAgentCompleted PERSONALIZATION (processing_time a3),
        LogTripCompleted (processing_time a1 + processing_time a2 + processing_time a3)]"
    using R'(4) P'(4) Q'(4) w by (simp add: total_def)
  show thesis
    using run[unfolded total_def] ro po qo times cl rds(6) tr R'(5) P'(5) Q'(5) gn
    by (rule that)
qed

subsection \<open>Every run of the orchestrator\<close>

lemma research_payload_key:
  assumes run: "process E RESEARCH self inp w = (Inr p, a', w')"
  shows "\<exists>v. map_of p ''research_data'' = Some v"
proof -
  obtain r w2 where
    int: "process_internal E RESEARCH self inp
            (snd (time_time E (emit (Invoke RESEARCH inp) w))) = (r, w2)"
    by (cases "process_internal E RESEARCH self inp
            (snd (time_time E (emit (Invoke RESEARCH inp) w)))")
  from process_calls[OF run int] have "r = Inr p" by simp
  with int research_internal_key show ?thesis by simp
qed

lemma planning_payload_key:
  assumes run: "process E PLANNING self inp w = (Inr p, a', w')"
  shows "\<exists>v. map_of p ''itinerary'' = Some v"
proof -
  obtain r w2 where
    int: "process_internal E PLANNING self inp
            (snd (time_time E (emit (Invoke PLANNING inp) w))) = (r, w2)"
    by (cases "process_internal E PLANNING self inp
            (snd (time_time E (emit (Invoke PLANNING inp) w)))")
  from process_calls[OF run int] have "r = Inr p" by simp
  with int planning_internal_key show ?thesis by simp
qed

text \<open>
  A run of \<^verbatim>\<open>plan_trip\<close> ends in one of four ways: an exception leaves the Research
  stage, the Planning stage or the Personalization stage, or the result is returned.
\<close>

lemma plan_trip_cases:
  obtains
    (research_raised) e w' evR where
      "plan_trip E self d c w = (Inl e, self, w')"
      "trace w' = trace w @
         [LogStarting d, LogPhase RESEARCH,
          Invoke RESEARCH [(''destination'', PStr d), (''constraints'', asdict c)]] @ evR"
      "list_all (inside RESEARCH) evR"
  | (planning_raised) e a1 w' evR evP rd where
      "plan_trip E self d c w = (Inl e, self\<lparr>research_agent := a1\<rparr>, w')"
      "trace w' = trace w @
         [LogStarting d, LogPhase RESEARCH,
          Invoke RESEARCH [(''destination'', PStr d), (''constraints'', asdict c)]] @ evR @
         [LogAgentCompleted RESEARCH (processing_time a1), LogPhase PLANNING,
          Invoke PLANNING [(''destination'', PStr d), (''constraints'', asdict c),
                           (''research_data'', rd)]] @ evP"
      "list_all (inside RESEARCH) evR" "list_all (inside PLANNING) evP"
  | (personalization_raised) e a1 a2 w' evR evP evQ rd itin where
      "plan_trip E self d c w =
         (Inl e, self\<lparr>research_agent := a1, planning_agent := a2\<rparr>, w')"
      "trace w' = trace w @
         [LogStarting d, LogPhase RESEARCH,
          Invoke RESEARCH [(''destination'', PStr d), (''constraints'', asdict c)]] @ evR @
         [LogAgentCompleted RESEARCH (processing_time a1), LogPhase PLANNING,
          Invoke PLANNING [(''destination'', PStr d), (''constraints'', asdict c),
                           (''research_data'', rd)]] @ evP @
         [LogAgentCompleted PLANNING (processing_time a2), LogPhase PERSONALIZATION,
          Invoke PERSONALIZATION [(''destination'', PStr d), (''constraints'', asdict c),
                                  (''research_data'', rd), (''itinerary'', itin)]] @ evQ"
      "list_all (inside RESEARCH) evR" "list_all (inside PLANNING) evP"
      "list_all (inside PERSONALIZATION) evQ"
  | (completed) ro po qo rd itin a1 a2 a3 w' evR evP evQ where
      "plan_trip E self d c w =
         (Inr [(''destination'', PStr d),
               (''constraints'', asdict c),
               (''research_output'', PDict ro),
               (''planning_output'', PDict po),
               (''personalization_output'', PDict qo),
               (''total_processing_time'',
                  PFloat (processing_time a1 + processing_time a2 + processing_time a3)),
               (''agent_times'', PDict
                  [(''research'', PFloat (processing_time a1)),
                   (''planning'', PFloat (processing_time a2)),
                   (''personalization'', PFloat (processing_time a3))])],
          \<lparr>research_agent = a1, planning_agent = a2, personalization_agent = a3\<rparr>, w')"
      "trace w' = trace w @
         [LogStarting d, LogPhase RESEARCH,
          Invoke RESEARCH [(''destination'', PStr d), (''constraints'', asdict c)]] @ evR @
         [LogAgentCompleted RESEARCH (processing_time a1), LogPhase PLANNING,
          Invoke PLANNING [(''destination'', PStr d), (''constraints'', asdict c),
                           (''research_data'', rd)]] @ evP @
         [LogAgentCompleted PLANNING (processing_time a2), LogPhase PERSONALIZATION,
          Invoke PERSONALIZATION [(''destination'', PStr d), (''constraints'', asdict c),
                                  (''research_data'', rd), (''itinerary'', itin)]] @ evQ @
         [LogAgentCompleted PERSONALIZATION (processing_time a3),
          LogTripCompleted (processing_time a1 + processing_time a2 + processing_time a3)]"
      "list_all (inside RESEARCH) evR" "list_all (inside PLANNING) evP"
      "list_all (inside PERSONALIZATION) evQ"
      "map_of ro ''research_data'' = Some rd" "map_of po ''itinerary'' = Some itin"
      "map_of ro ''processing_time'' = Some (PFloat (processing_time (research_agent self)))"
      "map_of po ''processing_time'' = Some (PFloat (processing_time (planning_agent self)))"
      "map_of qo ''processing_time'' =
         Some (PFloat (processing_time (personalization_agent self)))"
      "processing_time a1 = wall_clock E (reads w + 1) - wall_clock E (reads w)"
      "processing_time a2 = wall_clock E (reads w + 3) - wall_clock E (reads w + 2)"
      "processing_time a3 = wall_clock E (reads w + 5) - wall_clock E (reads w + 4)"
proof -
  let ?inR = "[(''destination'', PStr d), (''constraints'', asdict c)]"
  define w1 where "w1 = emit (LogPhase RESEARCH) (emit (LogStarting d) w)"
  have w1: "reads w1 = reads w" "trace w1 = trace w @ [LogStarting d, LogPhase RESEARCH]"
    by (simp_all add: w1_def emit_def)
  obtain res1 a1 w2 where
    R: "process E RESEARCH (research_agent self) ?inR w1 = (res1, a1, w2)"
    by (cases "process E RESEARCH (research_agent self) ?inR w1")
  from process_run[OF R] obtain evR where
    insR: "list_all (inside RESEARCH) evR"
    and trR: "trace w2 = trace w1 @ Invoke RESEARCH ?inR # evR @
             (case res1 of Inl e \<Rightarrow> []
              | Inr p \<Rightarrow> [LogAgentCompleted RESEARCH (processing_time a1)])"
    and stR: "case res1 of
              Inl e \<Rightarrow> a1 = research_agent self \<and> reads w2 = Suc (reads w1)
            | Inr p \<Rightarrow>
                reads w2 = Suc (Suc (reads w1)) \<and>
                processing_time a1 = wall_clock E (Suc (reads w1)) - wall_clock E (reads w1) \<and>
                map_of p ''processing_time'' =
                  Some (PFloat (processing_time (research_agent self)))"
    by (elim exE conjE)
  show thesis
  proof (cases res1)
    case (Inl e)
    with stR have a1: "a1 = research_agent self" by simp
    have "plan_trip E self d c w = (Inl e, self, w2)"
      unfolding plan_trip_def using R[unfolded w1_def] Inl a1 by (simp add: Let_def)
    moreover have "trace w2 = trace w @ [LogStarting d, LogPhase RESEARCH, Invoke RESEARCH ?inR] @ evR"
      using trR w1 Inl by simp
    ultimately show thesis using insR by (rule that(1))
  next
    case (Inr ro)
    note resR = Inr
    from stR resR have tR: "reads w2 = Suc (Suc (reads w1))"
      "processing_time a1 = wall_clock E (Suc (reads w1)) - wall_clock E (reads w1)"
      "map_of ro ''processing_time'' = Some (PFloat (processing_time (research_agent self)))"
      by simp_all
    from research_payload_key[OF R[unfolded resR]] obtain rd where
      rd: "map_of ro ''research_data'' = Some rd" ..
    let ?inP = "[(''destination'', PStr d), (''constraints'', asdict c), (''research_data'', rd)]"
    define self1 where "self1 = self\<lparr>research_agent := a1\<rparr>"
    define w3 where "w3 = emit (LogPhase PLANNING) w2"
    have w3: "reads w3 = reads w2" "trace w3 = trace w2 @ [LogPhase PLANNING]"
      by (simp_all add: w3_def emit_def)
    obtain res2 a2 w4 where
      P: "process E PLANNING (planning_agent self1) ?inP w3 = (res2, a2, w4)"
      by (cases "process E PLANNING (planning_agent self1) ?inP w3")
    from process_run[OF P] obtain evP where
      insP: "list_all (inside PLANNING) evP"
      and trP: "trace w4 = trace w3 @ Invoke PLANNING ?inP # evP @
               (case res2 of Inl e \<Rightarrow> []
                | Inr p \<Rightarrow> [LogAgentCompleted PLANNING (processing_time a2)])"
      and stP: "case res2 of
                Inl e \<Rightarrow> a2 = planning_agent self1 \<and> reads w4 = Suc (reads w3)
              | Inr p \<Rightarrow>
                  reads w4 = Suc (Suc (reads w3)) \<and>
                  processing_time a2 = wall_clock E (Suc (reads w3)) - wall_clock E (reads w3) \<and>
                  map_of p ''processing_time'' =
                    Some (PFloat (processing_time (planning_agent self1)))"
      by (elim exE conjE)
    have trR': "trace w3 = trace w @ [LogStarting d, LogPhase RESEARCH, Invoke RESEARCH ?inR] @
        evR @ [LogAgentCompleted RESEARCH (processing_time a1), LogPhase PLANNING]"
      using trR w1 w3 resR by simp
    show thesis
    proof (cases res2)
      case (Inl e)
      with stP have a2: "a2 = planning_agent self1" by simp
      have "plan_trip E self d c w = (Inl e, self\<lparr>research_agent := a1\<rparr>, w4)"
        unfolding plan_trip_def
        using R[unfolded w1_def] resR rd P[unfolded w3_def self1_def] Inl a2[unfolded self1_def]
        by (simp add: Let_def getitem_def)
      moreover have "trace w4 = trace w @
          [LogStarting d, LogPhase RESEARCH, Invoke RESEARCH ?inR] @ evR @
          [LogAgentCompleted RESEARCH (processing_time a1), LogPhase PLANNING,
           Invoke PLANNING ?inP] @ evP"
        using trP trR' Inl by simp
      ultimately show thesis using insR insP by (rule that(2))
    next
      case (Inr po)
      note resP = Inr
      from stP resP have tP: "reads w4 = Suc (Suc (reads w3))"
        "processing_time a2 = wall_clock E (Suc (reads w3)) - wall_clock E (reads w3)"
        "map_of po ''processing_time'' = Some (PFloat (processing_time (planning_agent self)))"
        by (simp_all add: self1_def)
      from planning_payload_key[OF P[unfolded resP]] obtain itin where
        itin: "map_of po ''itinerary'' = Some itin" ..
      let ?inQ = "[(''destination'', PStr d), (''constraints'', asdict c),
                   (''research_data'', rd), (''itinerary'', itin)]"
      define self2 where "self2 = self1\<lparr>planning_agent := a2\<rparr>"
      define w5 where "w5 = emit (LogPhase PERSONALIZATION) w4"
      have w5: "reads w5 = reads w4" "trace w5 = trace w4 @ [LogPhase PERSONALIZATION]"
        by (simp_all add: w5_def emit_def)
      obtain res3 a3 w6 where
        Q: "process E PERSONALIZATION (personalization_agent self2) ?inQ w5 = (res3, a3, w6)"
        by (cases "process E PERSONALIZATION (personalization_agent self2) ?inQ w5")
      from process_run[OF Q] obtain evQ where
        insQ: "list_all (inside PERSONALIZATION) evQ"
        and trQ: "trace w6 = trace w5 @ Invoke PERSONALIZATION ?inQ # evQ @
                 (case res3 of Inl e \<Rightarrow> []
                  | Inr p \<Rightarrow> [LogAgentCompleted PERSONALIZATION (processing_time a3)])"
        and stQ: "case res3 of
                  Inl e \<Rightarrow> a3 = personalization_agent self2 \<and> reads w6 = Suc (reads w5)
                | Inr p \<Rightarrow>
                    reads w6 = Suc (Suc (reads w5)) \<and>
                    processing_time a3 =
                      wall_clock E (Suc (reads w5)) - wall_clock E (reads w5) \<and>
                    map_of p ''processing_time'' =
                      Some (PFloat (processing_time (personalization_agent self2)))"
        by (elim exE conjE)
      have trP': "trace w5 = trace w @
          [LogStarting d, LogPhase RESEARCH, Invoke RESEARCH ?inR] @ evR @
          [LogAgentCompleted RESEARCH (processing_time a1), LogPhase PLANNING,
           Invoke PLANNING ?inP] @ evP @
          [LogAgentCompleted PLANNING (processing_time a2), LogPhase PERSONALIZATION]"
        using trP trR' w5 resP by simp
      show thesis
      proof (cases res3)
        case (Inl e)
        with stQ have a3: "a3 = personalization_agent self2" by simp
        have "plan_trip E self d c w =
            (Inl e, self\<lparr>research_agent := a1, planning_agent := a2\<rparr>, w6)"
          unfolding plan_trip_def
          using R[unfolded w1_def] resR rd P[unfolded w3_def self1_def] resP itin
            Q[unfolded w5_def self2_def self1_def] Inl a3[unfolded self2_def self1_def]
          by (simp add: Let_def getitem_def)
        moreover have "trace w6 = trace w @
            [LogStarting d, LogPhase RESEARCH, Invoke RESEARCH ?inR] @ evR @
            [LogAgentCompleted RESEARCH (processing_time a1), LogPhase PLANNING,
             Invoke PLANNING ?inP] @ evP @
            [LogAgentCompleted PLANNING (processing_time a2), LogPhase PERSONALIZATION,
             Invoke PERSONALIZATION ?inQ] @ evQ"
          using trQ trP' Inl by simp
        ultimately show thesis using insR insP insQ by (rule that(3))
      next
        case (Inr qo)
        note resQ = Inr
        from stQ resQ have tQ: "reads w6 = Suc (Suc (reads w5))"
          "processing_time a3 = wall_clock E (Suc (reads w5)) - wall_clock E (reads w5)"
          "map_of qo ''processing_time'' =
             Some (PFloat (processing_time (personalization_agent self)))"
          by (simp_all add: self2_def self1_def)
        define total where "total = processing_time a1 + processing_time a2 + processing_time a3"
        define w7 where "w7 = emit (LogTripCompleted total) w6"
        have run: "plan_trip E self d c w =
           (Inr [(''destination'', PStr d),
                 (''constraints'', asdict c),
                 (''research_output'', PDict ro),
                 (''planning_output'', PDict po),
                 (''personalization_output'', PDict qo),
                 (''total_processing_time'',
                    PFloat (processing_time a1 + processing_time a2 + processing_time a3)),
                 (''agent_times'', PDict
                    [(''research'', PFloat (processing_time a1)),
                     (''planning'', PFloat (processing_time a2)),
                     (''personalization'', PFloat (processing_time a3))])],
            \<lparr>research_agent = a1, planning_agent = a2, personalization_agent = a3\<rparr>, w7)"
          unfolding plan_trip_def w7_def total_def
          using R[unfolded w1_def] resR rd P[unfolded w3_def self1_def] resP itin
            Q[unfolded w5_def self2_def self1_def] resQ
          by (simp add: Let_def getitem_def)
        have tr: "trace w7 = trace w @
            [LogStarting d, LogPhase RESEARCH, Invoke RESEARCH ?inR] @ evR @
            [LogAgentCompleted RESEARCH (processing_time a1), LogPhase PLANNING,
             Invoke PLANNING ?inP] @ evP @
            [LogAgentCompleted PLANNING (processing_time a2), LogPhase PERSONALIZATION,
             Invoke PERSONALIZATION ?inQ] @ evQ @
            [LogAgentCompleted PERSONALIZATION (processing_time a3),
             LogTripCompleted (processing_time a1 + processing_time a2 + processing_time a3)]"
          using trQ trP' resQ by (simp add: w7_def emit_def total_def)
        have times:
          "processing_time a1 = wall_clock E (reads w + 1) - wall_clock E (reads w)"
          "processing_time a2 = wall_clock E (reads w + 3) - wall_clock E (reads w + 2)"
          "processing_time a3 = wall_clock E (reads w + 5) - wall_clock E (reads w + 4)"
          using tR(1,2) tP(1,2) tQ(1,2) w1(1) w3(1) w5(1) by (simp_all add: eval_nat_numeral)
        show thesis
          using run tr insR insP insQ rd itin tR(3) tP(3) tQ(3) times
          by (rule that(4))
      qed
    qed
  qed
qed

subsection \<open>Numbers of ordinary size\<close>

lemma below_gap:
  fixes A B S i :: int
  assumes "2 * A \<le> B" and "S < A" and "\<bar>i\<bar> \<le> S"
  shows "\<bar>i\<bar> < B - A"
  using assms by linarith

lemma converts_small: "\<bar>i\<bar> \<le> 2 ^ 32 \<Longrightarrow> converts i"
proof -
  assume i: "\<bar>i\<bar> \<le> 2 ^ 32"
  have "(971::nat) = Suc 970" by simp
  then have "(2::int) ^ 971 = 2 ^ Suc 970" by (rule arg_cong)
  then have e: "2 * (2::int) ^ 970 = 2 ^ 971" by (simp only: power_Suc)
  have "(2::int) ^ 971 \<le> 2 ^ 1024" by (rule power_increasing) simp_all
  with e have a: "2 * (2::int) ^ 970 \<le> 2 ^ 1024" by (simp only:)
  have b: "(2::int) ^ 32 < 2 ^ 970" by (rule power_strict_increasing) simp_all
  from a b i show ?thesis unfolding converts_def by (rule below_gap)
qed

lemma fits_small: "\<bar>i\<bar> \<le> 2 ^ 32 \<Longrightarrow> fits E i"
  by (rule converts_fits) (rule converts_small)

lemma above_gap:
  fixes A B :: int
  assumes "0 \<le> A" and "0 \<le> B"
  shows "\<not> \<bar>B\<bar> < B - A" and "\<bar>B\<bar> \<le> B"
  using assms by linarith+

lemma long_trip_days:
  "\<not> converts (duration_days long_trip)" "fits E (duration_days long_trip)"
proof -
  have sel: "duration_days (r\<lparr>duration_days := x\<rparr>) = x" for r :: TravelConstraints and x
    by simp
  have d: "duration_days long_trip = 2 ^ 1024"
    unfolding long_trip_def by (rule sel)
  have a: "(0::int) \<le> 2 ^ 970" and b: "(0::int) \<le> 2 ^ 1024"
    by (rule zero_le_power, simp)+
  show "\<not> converts (duration_days long_trip)"
    unfolding d converts_def using a b by (rule above_gap(1))
  show "fits E (duration_days long_trip)"
    unfolding d using above_gap(2)[OF a b] by (rule fits_bound)
qed

lemma georgia_in_range: "in_range E georgia"
  by (simp add: in_range_def georgia_def converts_small fits_small)

lemma negative_budget_in_range: "in_range E negative_budget"
  by (simp add: in_range_def negative_budget_def georgia_def converts_small fits_small)

lemma no_travelers_in_range: "in_range E no_travelers"
  by (simp add: in_range_def no_travelers_def georgia_def converts_small fits_small)

lemma budget_per_night_zero_days: "budget_per_night zero_days = Inl ZeroDivisionError"
  by (simp add: budget_per_night_def to_float_def zero_days_def georgia_def converts_small)

lemma budget_per_night_long_trip: "budget_per_night long_trip = Inl OverflowError"
proof -
  have "total_budget_usd long_trip = IntNum 1500"
    by (simp add: long_trip_def georgia_def)
  then show ?thesis
    using long_trip_days(1) by (simp add: budget_per_night_def to_float_def converts_small)
qed

subsection \<open>Runs that stop at the nightly budget\<close>

lemma research_internal_stops:
  assumes "map_of inp ''destination'' = Some d"
      and "map_of inp ''constraints'' = Some (asdict c)"
      and "str_of E d = Inr d"
      and "budget_per_night c = Inl e"
  shows "\<exists>w'. research_process_internal E self inp w = (Inl e, w')
           \<and> calls w' = calls w + (if fits E (duration_days c) then 3 else 2)"
  using assms
  by (simp add: research_process_internal_def subcall_defs delegated_eq guarded_eq Let_def
      getitem_def TravelConstraints_init_asdict str_of_PInt)

lemma plan_trip_stops:
  assumes b: "budget_per_night c = Inl e"
  obtains w' where
    "plan_trip E self d c w = (Inl e, self, w')"
    "calls w' = calls w + (if fits E (duration_days c) then 3 else 2)"
proof -
  let ?inR = "[(''destination'', PStr d), (''constraints'', asdict c)]"
  define w1 where "w1 = emit (LogPhase RESEARCH) (emit (LogStarting d) w)"
  define w1' where "w1' = snd (time_time E (emit (Invoke RESEARCH ?inR) w1))"
  obtain res a' w2 where run: "process E RESEARCH (research_agent self) ?inR w1 = (res, a', w2)"
    by (cases "process E RESEARCH (research_agent self) ?inR w1")
  from research_internal_stops[of ?inR "PStr d" c E e "research_agent self" w1'] b
  obtain w2' where i: "process_internal E RESEARCH (research_agent self) ?inR w1'
        = (Inl e, w2')"
    and c: "calls w2' = calls w1' + (if fits E (duration_days c) then 3 else 2)"
    by auto
  from process_calls[OF run i[unfolded w1'_def]]
  have res: "res = Inl e" and c': "calls w2 = calls w2'"
    by simp_all
  from process_run[OF run] res have a': "a' = research_agent self"
    by auto
  have w1: "calls w1' = calls w"
    by (simp add: w1_def w1'_def time_time_def emit_def)
  have "plan_trip E self d c w = (Inl e, self, w2)"
    unfolding plan_trip_def using run[unfolded w1_def] res a' by (simp add: Let_def)
  moreover have "calls w2 = calls w + (if fits E (duration_days c) then 3 else 2)"
    using c c' w1 by simp
  ultimately show thesis by (rule that)
qed

subsection \<open>Stages and trips that return\<close>

lemma research_process_returns:
  assumes "map_of inp ''destination'' = Some d"
      and "map_of inp ''constraints'' = Some (asdict c)"
      and "str_of E d = Inr d"
      and "duration_days c \<noteq> 0"
      and "in_range E c"
  shows "returned (outcome (process E RESEARCH self inp w))"
proof -
  have "\<And>w1. \<exists>p w2. process_internal E RESEARCH self inp w1 = (Inr p, w2) \<and>
          calls w2 = calls w1 + 6 \<and> True"
    using research_internal_ok[OF assms, of self] by simp blast
  from process_of_internal_ok[where w = w, OF this] show ?thesis
    by (metis fst_conv outcome_def returned.simps(1))
qed

lemma planning_process_returns:
  assumes "map_of inp ''research_data'' = Some rd"
      and "map_of inp ''constraints'' = Some (asdict c)"
      and "map_of inp ''destination'' = Some d"
      and "str_of E d = Inr d"
      and "json_dumps E rd = Inr rd"
      and "fits E (duration_days c)"
      and "fits E (traveler_count c)"
      and "str_of E (num_pyval (total_budget_usd c)) = Inr (num_pyval (total_budget_usd c))"
  shows "returned (outcome (process E PLANNING self inp w))"
proof -
  have "\<And>w1. \<exists>p w2. process_internal E PLANNING self inp w1 = (Inr p, w2) \<and>
          calls w2 = calls w1 + 3 \<and> True"
    using planning_internal_ok[OF assms, of self] by simp blast
  from process_of_internal_ok[where w = w, OF this] show ?thesis
    by (metis fst_conv outcome_def returned.simps(1))
qed

lemma personalization_process_returns:
  assumes "map_of inp ''itinerary'' = Some it"
      and "map_of inp ''constraints'' = Some (asdict c)"
      and "json_dumps E (PDict [(''personalized'', it)]) = Inr (PDict [(''personalized'', it)])"
      and "json_dumps E (get_default inp ''research_data'' (PDict [])) =
             Inr (get_default inp ''research_data'' (PDict []))"
      and "fits E (traveler_count c)"
  shows "returned (outcome (process E PERSONALIZATION self inp w))"
proof -
  have "\<And>w1. \<exists>p w2. process_internal E PERSONALIZATION self inp w1 = (Inr p, w2) \<and>
          calls w2 = calls w1 + 2 \<and> True"
    using personalization_internal_ok[OF assms, of self] by simp blast
  from process_of_internal_ok[where w = w, OF this] show ?thesis
    by (metis fst_conv outcome_def returned.simps(1))
qed

lemma plan_trip_returns:
  assumes dd: "duration_days c \<noteq> 0" and ir: "in_range E c"
  shows "returned (outcome (plan_trip E self d c w))"
proof (rule plan_trip_ok[OF dd ir, of self d w], goal_cases)
  case (1 ro po qo rd raw itin cost enh pnotes a1 a2 a3 w' evR evP evQ)
  from 1(1) show ?case by (simp add: outcome_def)
qed

lemma key_present: "k \<in> fst ` set inp \<Longrightarrow> \<exists>v. map_of inp k = Some v"
  by (cases "map_of inp k") (auto simp: map_of_eq_None_iff)

subsection \<open>Traces\<close>

lemmas run_defs = process_def process_internal.simps research_process_internal_def
  planning_process_internal_def personalization_process_internal_def subcall_defs
  delegated_eq guarded_eq item_str_def generate_notes_def
  time_time_def emit_def getitem_def get_default_def TravelConstraints_init_asdict
  attempt_events_def Let_def

lemmas proj_defs = outcome_def state_after_def world_after_def

lemma emitted_append: "trace w' = trace w @ evs \<Longrightarrow> emitted w w' = evs"
  by (simp add: emitted_def)

lemma invocations_append: "invocations (xs @ ys) = invocations xs @ invocations ys"
  by (induction xs rule: invocations.induct) simp_all

lemma invocations_inside: "list_all (inside a) evs \<Longrightarrow> invocations evs = []"
  by (induction evs rule: invocations.induct) simp_all

lemma seq_run_append:
  "seq_run st (xs @ ys) = (case seq_run st xs of None \<Rightarrow> None | Some st' \<Rightarrow> seq_run st' ys)"
  by (induction xs arbitrary: st) (simp_all split: option.split)

lemma seq_run_inside:
  "list_all (inside a) es \<Longrightarrow> seq_run (Running a fin) es = Some (Running a fin)"
proof (induction es)
  case Nil
  then show ?case by simp
next
  case (Cons e es)
  then show ?case by (cases e) simp_all
qed







section \<open>Claims\<close>

text \<open>
  C9.  For every itinerary and every constraints value, the Planning stage's local metric
  computation returns the same fixed mapping of placeholder constants
  (budget utilization 0.85, geographic efficiency 0.92, time efficiency 0.88, preference
  match 0.91); nothing is computed from the inputs.
\<close>

theorem calculate_metrics_fixed:
  "calculate_metrics itinerary constraints = PDict
     [(''budget_utilization'', PFloat (85 / 100)),
      (''geographic_efficiency'', PFloat (92 / 100)),
      (''time_efficiency'', PFloat (88 / 100)),
      (''preference_match'', PFloat (91 / 100))]"
  by (simp add: calculate_metrics_def)

text \<open>
  C3 (as amended).  For every constraints value whose budget, duration and traveler count
  are all positive and in the range the code can compute with (the duration and an integer
  budget convert to a float, the traveler count can be written in decimal),
  \<^verbatim>\<open>plan_trip\<close> returns a result whose \<^verbatim>\<open>agent_times\<close> mapping has exactly the keys
  research, planning and personalization, and whose \<^verbatim>\<open>total_processing_time\<close> is the sum
  of those three times, added in that order.
\<close>

theorem plan_trip_times:
  assumes "0 < num_val (total_budget_usd c)" and "0 < duration_days c"
      and "0 < traveler_count c" and "in_range E c"
  shows "returned (outcome (plan_trip E self d c w)) \<and>
    (\<exists>tr tp tq.
       map_of (payload_of (outcome (plan_trip E self d c w))) ''agent_times'' =
         Some (PDict [(''research'', PFloat tr), (''planning'', PFloat tp),
                      (''personalization'', PFloat tq)]) \<and>
       map_of (payload_of (outcome (plan_trip E self d c w))) ''total_processing_time'' =
         Some (PFloat (tr + tp + tq)))"
proof -
  from assms(2) have dd: "duration_days c \<noteq> 0" by simp
  show ?thesis
  proof (rule plan_trip_ok[OF dd assms(4), of self d w], goal_cases)
    case (1 ro po qo rd raw itin cost enh pnotes a1 a2 a3 w' evR evP evQ)
    from 1(1) show ?case by (simp add: outcome_def)
  qed
qed

text \<open>The test fixture's constraints satisfy the hypotheses.\<close>

theorem plan_trip_times_witness:
  "0 < num_val (total_budget_usd georgia) \<and> 0 < duration_days georgia \<and>
   0 < traveler_count georgia \<and> in_range healthy georgia \<and>
   returned (outcome (plan_trip healthy TravelPlanningOrchestrator_init ''Georgia'' georgia fresh)) \<and>
    (\<exists>tr tp tq.
       map_of (payload_of (outcome (plan_trip healthy TravelPlanningOrchestrator_init ''Georgia'' georgia fresh))) ''agent_times'' =
         Some (PDict [(''research'', PFloat tr), (''planning'', PFloat tp),
                      (''personalization'', PFloat tq)]) \<and>
       map_of (payload_of (outcome (plan_trip healthy TravelPlanningOrchestrator_init ''Georgia'' georgia fresh))) ''total_processing_time'' =
         Some (PFloat (tr + tp + tq)))"
  using plan_trip_times[of georgia healthy TravelPlanningOrchestrator_init "''Georgia''" fresh]
    georgia_in_range[of healthy]
  by (simp add: georgia_def)

text \<open>
  C3 as stated fails: budget, duration and traveler count of \<open>long_trip\<close> are positive,
  and \<^verbatim>\<open>plan_trip\<close> raises \<^verbatim>\<open>OverflowError\<close> after three provider calls, where the
  duration of \<open>2 ^ 1024\<close> days is converted to a float for the nightly budget.
\<close>

theorem valid_request_overflows:
  "0 < num_val (total_budget_usd long_trip) \<and> 0 < duration_days long_trip \<and>
   0 < traveler_count long_trip \<and>
   outcome (plan_trip healthy TravelPlanningOrchestrator_init ''Georgia'' long_trip fresh) =
     Inl OverflowError \<and>
   calls (world_after
     (plan_trip healthy TravelPlanningOrchestrator_init ''Georgia'' long_trip fresh)) = 3"
proof -
  have sel: "duration_days (r\<lparr>duration_days := x\<rparr>) = x" for r :: TravelConstraints and x
    by simp
  have "duration_days long_trip = 2 ^ 1024"
    unfolding long_trip_def by (rule sel)
  moreover have "(0::int) < 2 ^ 1024" by (rule zero_less_power) simp
  ultimately have d: "0 < duration_days long_trip" by (simp only:)
  have f: "0 < num_val (total_budget_usd long_trip)" "0 < traveler_count long_trip"
    by (simp_all add: long_trip_def georgia_def)
  show ?thesis
  proof (rule plan_trip_stops[OF budget_per_night_long_trip,
        of healthy TravelPlanningOrchestrator_init "''Georgia''" fresh], goal_cases)
    case (1 w')
    from 1 long_trip_days(2)[of healthy] d f show ?case
      by (simp add: proj_defs fresh_def)
  qed
qed

text \<open>
  C1 (as amended).  \<^verbatim>\<open>plan_trip\<close> does not validate its constraints: for every constraints
  value with a non-zero duration and numbers in the range the code can compute with,
  whether or not budget, duration and traveler count are positive, all three stages are
  invoked in order, eleven provider calls are made and a result is returned.
\<close>

theorem plan_trip_does_not_validate:
  assumes "duration_days c \<noteq> 0" and "in_range E c"
  shows "returned (outcome (plan_trip E self d c w)) \<and>
         calls (world_after (plan_trip E self d c w)) = calls w + 11 \<and>
         map fst (invocations (emitted w (world_after (plan_trip E self d c w)))) =
           [RESEARCH, PLANNING, PERSONALIZATION]"
proof (rule plan_trip_ok[OF assms, of self d w], goal_cases)
  case (1 ro po qo rd raw itin cost enh pnotes a1 a2 a3 w' evR evP evQ)
  from 1(1) have r: "outcome (plan_trip E self d c w) = Inr (payload_of (outcome (plan_trip E self d c w)))"
    "world_after (plan_trip E self d c w) = w'"
    by (simp_all add: proj_defs)
  from 1(10) have "emitted w w' = [LogStarting d, LogPhase RESEARCH,
        Invoke RESEARCH [(''destination'', PStr d), (''constraints'', asdict c)]] @ evR @
       [LogAgentCompleted RESEARCH (processing_time a1), LogPhase PLANNING,
        Invoke PLANNING [(''destination'', PStr d), (''constraints'', asdict c),
                         (''research_data'', rd)]] @ evP @
       [LogAgentCompleted PLANNING (processing_time a2), LogPhase PERSONALIZATION,
        Invoke PERSONALIZATION [(''destination'', PStr d), (''constraints'', asdict c),
                                (''research_data'', rd), (''itinerary'', itin)]] @ evQ @
       [LogAgentCompleted PERSONALIZATION (processing_time a3),
        LogTripCompleted (processing_time a1 + processing_time a2 + processing_time a3)]"
    by (rule emitted_append)
  then have "map fst (invocations (emitted w w')) = [RESEARCH, PLANNING, PERSONALIZATION]"
    using 1(11,12,13) by (simp add: invocations_append invocations_inside)
  with r 1(8) show ?case by (metis returned.simps(1))
qed

text \<open>A request for zero travelers satisfies the hypotheses and runs the whole pipeline.\<close>

theorem plan_trip_does_not_validate_witness:
  "duration_days no_travelers \<noteq> 0 \<and> in_range healthy no_travelers \<and>
   traveler_count no_travelers \<le> 0 \<and>
   returned (outcome (plan_trip healthy TravelPlanningOrchestrator_init ''Georgia'' no_travelers fresh)) \<and>
   calls (world_after (plan_trip healthy TravelPlanningOrchestrator_init ''Georgia'' no_travelers fresh)) = 11 \<and>
   map fst (invocations (emitted fresh (world_after
      (plan_trip healthy TravelPlanningOrchestrator_init ''Georgia'' no_travelers fresh)))) =
           [RESEARCH, PLANNING, PERSONALIZATION]"
  using plan_trip_does_not_validate[of no_travelers healthy TravelPlanningOrchestrator_init
      "''Georgia''" fresh] no_travelers_in_range[of healthy]
  by (simp add: no_travelers_def georgia_def fresh_def)

text \<open>
  C1 as stated fails: a budget of \<open>-5\<close> violates the data-model invariant, yet the run
  from a fresh world raises nothing, invokes the three stages and makes eleven provider
  calls.
\<close>

theorem invalid_budget_runs_pipeline:
  "num_val (total_budget_usd negative_budget) \<le> 0 \<and>
   returned (outcome (plan_trip healthy TravelPlanningOrchestrator_init ''Georgia'' negative_budget fresh)) \<and>
   calls (world_after (plan_trip healthy TravelPlanningOrchestrator_init ''Georgia'' negative_budget fresh)) = 11 \<and>
   map fst (invocations (trace (world_after
      (plan_trip healthy TravelPlanningOrchestrator_init ''Georgia'' negative_budget fresh)))) =
           [RESEARCH, PLANNING, PERSONALIZATION]"
proof -
  have dd: "duration_days negative_budget \<noteq> 0"
    by (simp add: negative_budget_def georgia_def)
  show ?thesis
  proof (rule plan_trip_ok[OF dd negative_budget_in_range,
        of healthy TravelPlanningOrchestrator_init "''Georgia''" fresh], goal_cases)
    case (1 ro po qo rd raw itin cost enh pnotes a1 a2 a3 w' evR evP evQ)
    from 1(1) have r: "returned (outcome (plan_trip healthy TravelPlanningOrchestrator_init
         ''Georgia'' negative_budget fresh))"
      "world_after (plan_trip healthy TravelPlanningOrchestrator_init
         ''Georgia'' negative_budget fresh) = w'"
      by (simp_all add: proj_defs)
    have "map fst (invocations (trace w')) = [RESEARCH, PLANNING, PERSONALIZATION]"
      using 1(10,11,12,13) by (simp add: invocations_append invocations_inside fresh_def)
    with r 1(8) show ?case
      by (simp add: negative_budget_def georgia_def fresh_def)
  qed
qed

text \<open>
  C10.  Whenever a stage's \<^verbatim>\<open>process\<close> returns, the \<^verbatim>\<open>processing_time\<close> entry of the
  payload is the value the agent stored before this invocation (the payload is built
  inside the internal procedure, before \<^verbatim>\<open>process\<close> updates the attribute), while the
  agent afterwards stores the difference of the two clock readings of this invocation.
  A new agent stores \<open>0\<close>.  Whenever \<^verbatim>\<open>plan_trip\<close> returns, \<^verbatim>\<open>agent_times\<close> holds the
  values the three agents store after the run, which are the elapsed times of this
  run's invocations, and the three embedded payloads hold the values from before it.
\<close>

theorem payload_time_is_stale:
  "(returned (outcome (process E cls self inp w)) \<longrightarrow>
      map_of (payload_of (outcome (process E cls self inp w))) ''processing_time'' =
        Some (PFloat (processing_time self)) \<and>
      processing_time (state_after (process E cls self inp w)) =
        wall_clock E (reads w + 1) - wall_clock E (reads w)) \<and>
   processing_time BaseAgent_init = 0 \<and>
   (returned (outcome (plan_trip E orch d c w)) \<longrightarrow>
      map_of (payload_of (outcome (plan_trip E orch d c w))) ''agent_times'' =
        Some (PDict
          [(''research'', PFloat (processing_time (research_agent
              (state_after (plan_trip E orch d c w))))),
           (''planning'', PFloat (processing_time (planning_agent
              (state_after (plan_trip E orch d c w))))),
           (''personalization'', PFloat (processing_time (personalization_agent
              (state_after (plan_trip E orch d c w)))))]) \<and>
      processing_time (research_agent (state_after (plan_trip E orch d c w))) =
        wall_clock E (reads w + 1) - wall_clock E (reads w) \<and>
      processing_time (planning_agent (state_after (plan_trip E orch d c w))) =
        wall_clock E (reads w + 3) - wall_clock E (reads w + 2) \<and>
      processing_time (personalization_agent (state_after (plan_trip E orch d c w))) =
        wall_clock E (reads w + 5) - wall_clock E (reads w + 4) \<and>
      map_of (subdict (payload_of (outcome (plan_trip E orch d c w))) ''research_output'')
          ''processing_time'' = Some (PFloat (processing_time (research_agent orch))) \<and>
      map_of (subdict (payload_of (outcome (plan_trip E orch d c w))) ''planning_output'')
          ''processing_time'' = Some (PFloat (processing_time (planning_agent orch))) \<and>
      map_of (subdict (payload_of (outcome (plan_trip E orch d c w)))
          ''personalization_output'')
          ''processing_time'' = Some (PFloat (processing_time (personalization_agent orch))))"
proof -
  have stage: "map_of (payload_of (outcome (process E cls self inp w))) ''processing_time'' =
        Some (PFloat (processing_time self)) \<and>
      processing_time (state_after (process E cls self inp w)) =
        wall_clock E (reads w + 1) - wall_clock E (reads w)"
    if ret: "returned (outcome (process E cls self inp w))"
  proof -
    obtain res a' w' where run: "process E cls self inp w = (res, a', w')"
      by (cases "process E cls self inp w")
    with ret obtain p where res: "res = Inr p"
      by (cases res) (simp_all add: outcome_def)
    from process_run[OF run] res run show ?thesis
      by (auto simp: outcome_def state_after_def)
  qed
  have trip: "map_of (payload_of (outcome (plan_trip E orch d c w))) ''agent_times'' =
        Some (PDict
          [(''research'', PFloat (processing_time (research_agent
              (state_after (plan_trip E orch d c w))))),
           (''planning'', PFloat (processing_time (planning_agent
              (state_after (plan_trip E orch d c w))))),
           (''personalization'', PFloat (processing_time (personalization_agent
              (state_after (plan_trip E orch d c w)))))]) \<and>
      processing_time (research_agent (state_after (plan_trip E orch d c w))) =
        wall_clock E (reads w + 1) - wall_clock E (reads w) \<and>
      processing_time (planning_agent (state_after (plan_trip E orch d c w))) =
        wall_clock E (reads w + 3) - wall_clock E (reads w + 2) \<and>
      processing_time (personalization_agent (state_after (plan_trip E orch d c w))) =
        wall_clock E (reads w + 5) - wall_clock E (reads w + 4) \<and>
      map_of (subdict (payload_of (outcome (plan_trip E orch d c w))) ''research_output'')
          ''processing_time'' = Some (PFloat (processing_time (research_agent orch))) \<and>
      map_of (subdict (payload_of (outcome (plan_trip E orch d c w))) ''planning_output'')
          ''processing_time'' = Some (PFloat (processing_time (planning_agent orch))) \<and>
      map_of (subdict (payload_of (outcome (plan_trip E orch d c w)))
          ''personalization_output'')
          ''processing_time'' = Some (PFloat (processing_time (personalization_agent orch)))"
    if ret: "returned (outcome (plan_trip E orch d c w))"
  proof (rule plan_trip_cases[of E orch d c w], goal_cases)
    case (1 e w' evR)
    with ret show ?case by (simp add: outcome_def)
  next
    case (2 e a1 w' evR evP rd)
    with ret show ?case by (simp add: outcome_def)
  next
    case (3 e a1 a2 w' evR evP evQ rd itin)
    with ret show ?case by (simp add: outcome_def)
  next
    case (4 ro po qo rd itin a1 a2 a3 w' evR evP evQ)
    have o: "payload_of (outcome (plan_trip E orch d c w)) =
       [(''destination'', PStr d), (''constraints'', asdict c),
        (''research_output'', PDict ro), (''planning_output'', PDict po),
        (''personalization_output'', PDict qo),
        (''total_processing_time'',
           PFloat (processing_time a1 + processing_time a2 + processing_time a3)),
        (''agent_times'', PDict
           [(''research'', PFloat (processing_time a1)),
            (''planning'', PFloat (processing_time a2)),
            (''personalization'', PFloat (processing_time a3))])]"
      and s: "state_after (plan_trip E orch d c w) =
        \<lparr>research_agent = a1, planning_agent = a2, personalization_agent = a3\<rparr>"
      using 4(1) by (simp_all add: outcome_def state_after_def)
    have sub: "subdict (payload_of (outcome (plan_trip E orch d c w))) ''research_output'' = ro"
      "subdict (payload_of (outcome (plan_trip E orch d c w))) ''planning_output'' = po"
      "subdict (payload_of (outcome (plan_trip E orch d c w))) ''personalization_output'' = qo"
      unfolding o by (simp_all add: subdict_def)
    have at: "map_of (payload_of (outcome (plan_trip E orch d c w))) ''agent_times'' =
       Some (PDict
           [(''research'', PFloat (processing_time a1)),
            (''planning'', PFloat (processing_time a2)),
            (''personalization'', PFloat (processing_time a3))])"
      unfolding o by simp
    show ?case
      unfolding sub at s using 4(8,9,10,11,12,13) by simp
  qed
  have "processing_time BaseAgent_init = 0" by (simp add: BaseAgent_init_def)
  with stage trip show ?thesis by blast
qed

text \<open>A first Research call and a first trip, two seconds between clock readings.\<close>

theorem payload_time_is_stale_witness:
  "returned (outcome (process healthy RESEARCH BaseAgent_init research_input fresh)) \<and>
   map_of (payload_of (outcome (process healthy RESEARCH BaseAgent_init research_input fresh)))
     ''processing_time'' = Some (PFloat 0) \<and>
   processing_time (state_after (process healthy RESEARCH BaseAgent_init research_input fresh))
     = 2 \<and>
   returned (outcome (plan_trip healthy TravelPlanningOrchestrator_init ''Georgia'' georgia fresh)) \<and>
   map_of (payload_of (outcome
      (plan_trip healthy TravelPlanningOrchestrator_init ''Georgia'' georgia fresh)))
     ''agent_times'' =
     Some (PDict [(''research'', PFloat 2), (''planning'', PFloat 2),
                  (''personalization'', PFloat 2)]) \<and>
   map_of (subdict (payload_of (outcome
      (plan_trip healthy TravelPlanningOrchestrator_init ''Georgia'' georgia fresh)))
      ''research_output'') ''processing_time'' = Some (PFloat 0)"
proof -
  have r1: "returned (outcome (process healthy RESEARCH BaseAgent_init research_input fresh))"
    by (rule research_process_returns[of _ "PStr ''Georgia''" georgia])
       (simp_all add: research_input_def georgia_def georgia_in_range[unfolded georgia_def])
  have r2: "returned (outcome
      (plan_trip healthy TravelPlanningOrchestrator_init ''Georgia'' georgia fresh))"
    by (rule plan_trip_returns[OF _ georgia_in_range]) (simp add: georgia_def)
  from r1 r2 payload_time_is_stale[of healthy RESEARCH BaseAgent_init research_input fresh
      TravelPlanningOrchestrator_init "''Georgia''" georgia]
  show ?thesis
    by (simp add: healthy_def fresh_def BaseAgent_init_def TravelPlanningOrchestrator_init_def)
qed

text \<open>
  C7 (the code departs from the claim).  The claim asks that the \<^verbatim>\<open>processing_time\<close>
  inside the returned stage result be the elapsed time of that invocation.  On a first
  Research call with two seconds between the two clock readings, the payload says \<open>0\<close>
  and the elapsed time, which the agent stores, is \<open>2\<close>.
\<close>

theorem research_payload_time_is_not_elapsed:
  "returned (outcome (process healthy RESEARCH BaseAgent_init research_input fresh)) \<and>
   map_of (payload_of (outcome (process healthy RESEARCH BaseAgent_init research_input fresh)))
     ''processing_time'' = Some (PFloat 0) \<and>
   wall_clock healthy 1 - wall_clock healthy 0 = 2 \<and>
   processing_time (state_after (process healthy RESEARCH BaseAgent_init research_input fresh))
     = 2"
proof -
  have r: "returned (outcome (process healthy RESEARCH BaseAgent_init research_input fresh))"
    by (rule research_process_returns[of _ "PStr ''Georgia''" georgia])
       (simp_all add: research_input_def georgia_def georgia_in_range[unfolded georgia_def])
  obtain res a' w' where
    run: "process healthy RESEARCH BaseAgent_init research_input fresh = (res, a', w')"
    by (cases "process healthy RESEARCH BaseAgent_init research_input fresh")
  with r obtain p where res: "res = Inr p"
    by (cases res) (simp_all add: outcome_def)
  from process_run[OF run] res run r show ?thesis
    by (auto simp: proj_defs BaseAgent_init_def healthy_def fresh_def)
qed

text \<open>
  C4 (as amended).  For every input mapping that contains the keys the stage variant
  subscripts, whose \<^verbatim>\<open>constraints\<close> entry is the mapping of a \<^verbatim>\<open>TravelConstraints\<close>
  value, and for which what the stage evaluates outside its \<^verbatim>\<open>try\<close> blocks is defined
  (\<open>prompts_defined\<close>: the duration is not zero and the numbers are in range for Research,
  the values written into the prompts can be formatted and serialised), \<^verbatim>\<open>process\<close>
  returns a payload, whatever the outcomes of the provider calls.
\<close>

theorem process_returns:
  assumes "set (required_keys cls) \<subseteq> fst ` set inp"
      and "map_of inp ''constraints'' = Some (asdict c)"
      and "prompts_defined E cls inp c"
  shows "returned (outcome (process E cls self inp w))"
proof (cases cls)
  case RESEARCH
  with assms(1) have "''destination'' \<in> fst ` set inp" by simp
  then have "\<exists>d. map_of inp ''destination'' = Some d" by (rule key_present)
  then obtain d where d: "map_of inp ''destination'' = Some d" ..
  with assms(3) RESEARCH have "str_of E d = Inr d" "duration_days c \<noteq> 0" "in_range E c"
    by (simp_all add: get_default_def str_of_returned)
  with d assms(2) RESEARCH show ?thesis
    by (simp add: research_process_returns)
next
  case PLANNING
  with assms(1) have k: "''destination'' \<in> fst ` set inp" "''research_data'' \<in> fst ` set inp"
    by simp_all
  from k(1) have "\<exists>d. map_of inp ''destination'' = Some d" by (rule key_present)
  then obtain d where d: "map_of inp ''destination'' = Some d" ..
  from k(2) have "\<exists>rd. map_of inp ''research_data'' = Some rd" by (rule key_present)
  then obtain rd where rd: "map_of inp ''research_data'' = Some rd" ..
  from assms(3) PLANNING d rd have
    "str_of E d = Inr d" "json_dumps E rd = Inr rd"
    "fits E (duration_days c)" "fits E (traveler_count c)"
    "str_of E (num_pyval (total_budget_usd c)) = Inr (num_pyval (total_budget_usd c))"
    by (simp_all add: get_default_def str_of_returned json_dumps_returned)
  with d rd assms(2) PLANNING show ?thesis
    by (simp add: planning_process_returns)
next
  case PERSONALIZATION
  with assms(1) have "''itinerary'' \<in> fst ` set inp" by simp
  then have "\<exists>it. map_of inp ''itinerary'' = Some it" by (rule key_present)
  then obtain it where it: "map_of inp ''itinerary'' = Some it" ..
  from assms(3) PERSONALIZATION it have
    "json_dumps E (PDict [(''personalized'', it)]) = Inr (PDict [(''personalized'', it)])"
    "json_dumps E (get_default inp ''research_data'' (PDict [])) =
       Inr (get_default inp ''research_data'' (PDict []))"
    "fits E (traveler_count c)"
    by (simp_all add: get_default_def[of inp "''itinerary''"] json_dumps_returned)
  with it assms(2) PERSONALIZATION show ?thesis
    by (simp add: personalization_process_returns)
qed

text \<open>The Research stage during a total provider outage.\<close>

theorem process_returns_witness:
  "set (required_keys RESEARCH) \<subseteq> fst ` set research_input \<and>
   map_of research_input ''constraints'' = Some (asdict georgia) \<and>
   prompts_defined outage RESEARCH research_input georgia \<and>
   returned (outcome (process outage RESEARCH BaseAgent_init research_input fresh))"
  using process_returns[of RESEARCH research_input georgia outage BaseAgent_init fresh]
    georgia_in_range[of outage]
  by (simp add: research_input_def georgia_def get_default_def)

text \<open>
  C4 as stated fails: the input holds both keys the Research stage requires, and with a
  duration of zero days \<^verbatim>\<open>process\<close> raises \<^verbatim>\<open>ZeroDivisionError\<close> after three provider
  calls, from the nightly-budget division in \<^verbatim>\<open>_get_accommodation_info\<close>.
\<close>

theorem research_raises_on_zero_days:
  "set (required_keys RESEARCH) \<subseteq> fst ` set zero_input \<and>
   outcome (process healthy RESEARCH BaseAgent_init zero_input fresh) = Inl ZeroDivisionError \<and>
   calls (world_after (process healthy RESEARCH BaseAgent_init zero_input fresh)) = 3"
proof -
  have f: "fits healthy (duration_days zero_days)"
    by (simp add: zero_days_def fits_small)
  obtain res a' w' where
    run: "process healthy RESEARCH BaseAgent_init zero_input fresh = (res, a', w')"
    by (cases "process healthy RESEARCH BaseAgent_init zero_input fresh")
  from research_internal_stops[of zero_input "PStr ''Georgia''" zero_days healthy
      ZeroDivisionError BaseAgent_init
      "snd (time_time healthy (emit (Invoke RESEARCH zero_input) fresh))"]
    budget_per_night_zero_days f
  obtain w2 where
    i: "process_internal healthy RESEARCH BaseAgent_init zero_input
          (snd (time_time healthy (emit (Invoke RESEARCH zero_input) fresh)))
        = (Inl ZeroDivisionError, w2)"
    and c: "calls w2 = 3"
    by (auto simp: zero_input_def time_time_def emit_def fresh_def)
  from process_calls[OF run i] c run show ?thesis
    by (simp add: proj_defs zero_input_def)
qed

text \<open>
  C6.  In every execution of \<^verbatim>\<open>plan_trip\<close> the call-order monitor accepts the events of
  the run: Planning is not invoked before Research's \<^verbatim>\<open>process\<close> has returned,
  Personalization is not invoked before Planning's has returned, no stage is invoked
  while another is running, and every provider call happens inside the stage that
  issues it.
\<close>

theorem stages_run_in_sequence:
  "sequenced (emitted w (world_after (plan_trip E self d c w)))"
proof (rule plan_trip_cases[of E self d c w], goal_cases)
  case (1 e w' evR)
  note ev = emitted_append[OF 1(2)]
  from 1(1) have w': "world_after (plan_trip E self d c w) = w'"
    by (simp add: world_after_def)
  show ?case
    unfolding w' ev sequenced_def using 1(3)
    by (simp add: seq_run_append seq_run_inside)
next
  case (2 e a1 w' evR evP rd)
  note ev = emitted_append[OF 2(2)]
  from 2(1) have w': "world_after (plan_trip E self d c w) = w'"
    by (simp add: world_after_def)
  show ?case
    unfolding w' ev sequenced_def using 2(3,4)
    by (simp add: seq_run_append seq_run_inside)
next
  case (3 e a1 a2 w' evR evP evQ rd itin)
  note ev = emitted_append[OF 3(2)]
  from 3(1) have w': "world_after (plan_trip E self d c w) = w'"
    by (simp add: world_after_def)
  show ?case
    unfolding w' ev sequenced_def using 3(3,4,5)
    by (simp add: seq_run_append seq_run_inside)
next
  case (4 ro po qo rd itin a1 a2 a3 w' evR evP evQ)
  note ev = emitted_append[OF 4(2)]
  from 4(1) have w': "world_after (plan_trip E self d c w) = w'"
    by (simp add: world_after_def)
  show ?case
    unfolding w' ev sequenced_def using 4(3,4,5)
    by (simp add: seq_run_append seq_run_inside)
qed

text \<open>The monitor does reject the orders the claim excludes.\<close>

lemma monitor_rejects_early_planning:
  "\<not> sequenced [Invoke RESEARCH i1, Invoke PLANNING i2]"
  "\<not> sequenced [Invoke PLANNING i2]"
  "\<not> sequenced [Invoke RESEARCH i1, LogAgentCompleted RESEARCH t, Invoke PERSONALIZATION i3]"
  "\<not> sequenced [Invoke RESEARCH i1, ProviderCall (Prompt Itinerary args) out]"
  by (simp_all add: sequenced_def)

text \<open>
  C8 (as amended).  In every execution of \<^verbatim>\<open>plan_trip\<close>, every stage that is invoked
  receives a mapping with exactly the keys \<^verbatim>\<open>plan_trip\<close> assembles for it: destination and
  constraints for Research; destination, constraints and \<^verbatim>\<open>research_data\<close> for Planning;
  destination, constraints, \<^verbatim>\<open>research_data\<close> and itinerary for Personalization, which
  is one key (the destination) more than Personalization reads.  When the run returns,
  all three stages were invoked, \<^verbatim>\<open>research_data\<close> is the entry of that name of the
  Research payload and the itinerary is the entry of that name of the Planning payload.
\<close>

theorem stage_inputs:
  "list_all (\<lambda>(a, inp). map fst inp = passed_keys a \<and>
        map_of inp ''destination'' = Some (PStr d) \<and>
        map_of inp ''constraints'' = Some (asdict c))
     (invocations (emitted w (world_after (plan_trip E self d c w)))) \<and>
   (returned (outcome (plan_trip E self d c w)) \<longrightarrow>
     invocations (emitted w (world_after (plan_trip E self d c w))) =
       [(RESEARCH, [(''destination'', PStr d), (''constraints'', asdict c)]),
        (PLANNING, [(''destination'', PStr d), (''constraints'', asdict c),
           (''research_data'',
              get_default (subdict (payload_of (outcome (plan_trip E self d c w)))
                 ''research_output'') ''research_data'' PNone)]),
        (PERSONALIZATION, [(''destination'', PStr d), (''constraints'', asdict c),
           (''research_data'',
              get_default (subdict (payload_of (outcome (plan_trip E self d c w)))
                 ''research_output'') ''research_data'' PNone),
           (''itinerary'',
              get_default (subdict (payload_of (outcome (plan_trip E self d c w)))
                 ''planning_output'') ''itinerary'' PNone)])])"
proof (rule plan_trip_cases[of E self d c w], goal_cases)
  case (1 e w' evR)
  note ev = emitted_append[OF 1(2)]
  from 1(1) have w': "world_after (plan_trip E self d c w) = w'"
    and o: "outcome (plan_trip E self d c w) = Inl e"
    by (simp_all add: world_after_def outcome_def)
  show ?case
    unfolding w' ev o using 1(3)
    by (simp add: invocations_append invocations_inside)
next
  case (2 e a1 w' evR evP rd)
  note ev = emitted_append[OF 2(2)]
  from 2(1) have w': "world_after (plan_trip E self d c w) = w'"
    and o: "outcome (plan_trip E self d c w) = Inl e"
    by (simp_all add: world_after_def outcome_def)
  show ?case
    unfolding w' ev o using 2(3,4)
    by (simp add: invocations_append invocations_inside)
next
  case (3 e a1 a2 w' evR evP evQ rd itin)
  note ev = emitted_append[OF 3(2)]
  from 3(1) have w': "world_after (plan_trip E self d c w) = w'"
    and o: "outcome (plan_trip E self d c w) = Inl e"
    by (simp_all add: world_after_def outcome_def)
  show ?case
    unfolding w' ev o using 3(3,4,5)
    by (simp add: invocations_append invocations_inside)
next
  case (4 ro po qo rd itin a1 a2 a3 w' evR evP evQ)
  note ev = emitted_append[OF 4(2)]
  from 4(1) have w': "world_after (plan_trip E self d c w) = w'"
    by (simp add: world_after_def)
  have sub: "get_default (subdict (payload_of (outcome (plan_trip E self d c w)))
               ''research_output'') ''research_data'' PNone = rd"
    "get_default (subdict (payload_of (outcome (plan_trip E self d c w)))
               ''planning_output'') ''itinerary'' PNone = itin"
    using 4(1) 4(6) 4(7)
    by (simp_all add: outcome_def subdict_def get_default_def)
  show ?case
    unfolding w' ev sub using 4(3,4,5)
    by (simp add: invocations_append invocations_inside)
qed

text \<open>The test fixture's trip returns, so the implication applies.\<close>

theorem stage_inputs_witness:
  "returned (outcome (plan_trip healthy TravelPlanningOrchestrator_init ''Georgia'' georgia fresh)) \<and>
   list_all (\<lambda>(a, inp). map fst inp = passed_keys a \<and>
        map_of inp ''destination'' = Some (PStr ''Georgia'') \<and>
        map_of inp ''constraints'' = Some (asdict georgia))
     (invocations (emitted fresh (world_after
        (plan_trip healthy TravelPlanningOrchestrator_init ''Georgia'' georgia fresh)))) \<and>
   map fst (invocations (emitted fresh (world_after
        (plan_trip healthy TravelPlanningOrchestrator_init ''Georgia'' georgia fresh)))) =
     [RESEARCH, PLANNING, PERSONALIZATION]"
proof -
  have r: "returned (outcome
      (plan_trip healthy TravelPlanningOrchestrator_init ''Georgia'' georgia fresh))"
    by (rule plan_trip_returns[OF _ georgia_in_range]) (simp add: georgia_def)
  with stage_inputs[of "''Georgia''" georgia fresh healthy TravelPlanningOrchestrator_init]
  show ?thesis by simp
qed

text \<open>
  C8 as stated fails: Personalization is handed the destination, which is not among the
  keys its internal procedure reads (itinerary, constraints, \<^verbatim>\<open>research_data\<close>).
\<close>

theorem personalization_is_passed_destination:
  "map (\<lambda>(a, inp). (a, map fst inp)) (invocations (trace (world_after
      (plan_trip healthy TravelPlanningOrchestrator_init ''Georgia'' georgia fresh)))) =
     [(RESEARCH, [''destination'', ''constraints'']),
      (PLANNING, [''destination'', ''constraints'', ''research_data'']),
      (PERSONALIZATION, [''destination'', ''constraints'', ''research_data'', ''itinerary''])] \<and>
   ''destination'' \<notin> set (keys_read PERSONALIZATION)"
proof -
  have dd: "duration_days georgia \<noteq> 0" by (simp add: georgia_def)
  show ?thesis
  proof (rule plan_trip_ok[OF dd georgia_in_range,
        of healthy TravelPlanningOrchestrator_init "''Georgia''" fresh], goal_cases)
    case (1 ro po qo rd raw itin cost enh pnotes a1 a2 a3 w' evR evP evQ)
    from 1(1) have w': "world_after
      (plan_trip healthy TravelPlanningOrchestrator_init ''Georgia'' georgia fresh) = w'"
      by (simp add: world_after_def)
    show ?case
      unfolding w' 1(10) using 1(11,12,13)
      by (simp add: invocations_append invocations_inside fresh_def)
  qed
qed

text \<open>
  C2 (as amended).  When every provider call fails, the duration is not zero and the
  numbers are in the range the code can compute with, \<^verbatim>\<open>plan_trip\<close> still returns.  The
  eight sub-results with a fixed fallback (weather, events, attractions, accommodation,
  transport, synthesis, itinerary generation, cost analysis) hold their fallback string;
  logistics optimisation, personalization and contextual recommendations have no fallback
  string and wrap their input unchanged, so the itineraries are nestings around
  \<^verbatim>\<open>"Itinerary generation failed"\<close>.
\<close>

lemma plan_trip_outage:
  assumes "respond E = (\<lambda>k req. None)" and "duration_days c \<noteq> 0" and "in_range E c"
  shows "\<exists>t1 t2 t3 tt ta tb tc pn. outcome (plan_trip E self d c w) = Inr
    [(''destination'', PStr d), (''constraints'', asdict c),
     (''research_output'', PDict
        [(''destination'', PStr d),
         (''research_data'', sentinel Synthesis),
         (''raw_data'', PDict
            [(''weather'', sentinel Weather), (''events'', sentinel Events),
             (''attractions'', sentinel Attractions),
             (''accommodation'', sentinel Accommodation),
             (''transport'', sentinel Transport)]),
         (''processing_time'', PFloat t1)]),
     (''planning_output'', PDict
        [(''destination'', PStr d),
         (''itinerary'', PDict [(''optimized_itinerary'', sentinel Itinerary)]),
         (''cost_analysis'', sentinel Costs),
         (''optimization_metrics'',
            calculate_metrics (PDict [(''optimized_itinerary'', sentinel Itinerary)]) c),
         (''processing_time'', PFloat t2)]),
     (''personalization_output'', PDict
        [(''personalized_itinerary'', PDict [(''enhanced_itinerary'',
            PDict [(''personalized'',
              PDict [(''optimized_itinerary'', sentinel Itinerary)])])]),
         (''personalization_notes'', pn),
         (''processing_time'', PFloat t3)]),
     (''total_processing_time'', PFloat tt),
     (''agent_times'', PDict
        [(''research'', PFloat ta), (''planning'', PFloat tb),
         (''personalization'', PFloat tc)])]"
proof -
  note f = in_range_fits[OF assms(3)]
  note b = budget_per_night_ok[OF assms(2,3)]
  note a = str_of_asdict[OF f]
  note sb = str_of_budget[OF f(3)]
  from assms(1) f(1,2) b a sb show ?thesis
    by (simp add: plan_trip_def run_defs outcome_def str_of_PInt)
qed

theorem outage_result:
  assumes "respond E = (\<lambda>k req. None)" and "duration_days c \<noteq> 0" and "in_range E c"
  shows "returned (outcome (plan_trip E self d c w)) \<and>
    map_of (subdict (payload_of (outcome (plan_trip E self d c w))) ''research_output'')
       ''raw_data'' =
      Some (PDict
        [(''weather'', PDict [(''weather_summary'', PStr ''Weather information unavailable'')]),
         (''events'', PDict [(''events'', PStr ''Events information unavailable'')]),
         (''attractions'',
            PDict [(''attractions'', PStr ''Attractions information unavailable'')]),
         (''accommodation'',
            PDict [(''accommodation'', PStr ''Accommodation information unavailable'')]),
         (''transport'', PDict [(''transport'', PStr ''Transport information unavailable'')])]) \<and>
    map_of (subdict (payload_of (outcome (plan_trip E self d c w))) ''research_output'')
       ''research_data'' = Some (PDict [(''synthesis'', PStr ''Synthesis unavailable'')]) \<and>
    map_of (subdict (payload_of (outcome (plan_trip E self d c w))) ''planning_output'')
       ''itinerary'' =
      Some (PDict [(''optimized_itinerary'',
         PDict [(''itinerary'', PStr ''Itinerary generation failed'')])]) \<and>
    map_of (subdict (payload_of (outcome (plan_trip E self d c w))) ''planning_output'')
       ''cost_analysis'' = Some (PDict [(''cost_analysis'', PStr ''Cost analysis unavailable'')]) \<and>
    map_of (subdict (payload_of (outcome (plan_trip E self d c w))) ''personalization_output'')
       ''personalized_itinerary'' =
      Some (PDict [(''enhanced_itinerary'', PDict [(''personalized'',
         PDict [(''optimized_itinerary'',
           PDict [(''itinerary'', PStr ''Itinerary generation failed'')])])])])"
proof -
  from plan_trip_outage[OF assms, of self d w] obtain t1 t2 t3 tt ta tb tc pn where
    o: "outcome (plan_trip E self d c w) = Inr
    [(''destination'', PStr d), (''constraints'', asdict c),
     (''research_output'', PDict
        [(''destination'', PStr d),
         (''research_data'', sentinel Synthesis),
         (''raw_data'', PDict
            [(''weather'', sentinel Weather), (''events'', sentinel Events),
             (''attractions'', sentinel Attractions),
             (''accommodation'', sentinel Accommodation),
             (''transport'', sentinel Transport)]),
         (''processing_time'', PFloat t1)]),
     (''planning_output'', PDict
        [(''destination'', PStr d),
         (''itinerary'', PDict [(''optimized_itinerary'', sentinel Itinerary)]),
         (''cost_analysis'', sentinel Costs),
         (''optimization_metrics'',
            calculate_metrics (PDict [(''optimized_itinerary'', sentinel Itinerary)]) c),
         (''processing_time'', PFloat t2)]),
     (''personalization_output'', PDict
        [(''personalized_itinerary'', PDict [(''enhanced_itinerary'',
            PDict [(''personalized'',
              PDict [(''optimized_itinerary'', sentinel Itinerary)])])]),
         (''personalization_notes'', pn),
         (''processing_time'', PFloat t3)]),
     (''total_processing_time'', PFloat tt),
     (''agent_times'', PDict
        [(''research'', PFloat ta), (''planning'', PFloat tb),
         (''personalization'', PFloat tc)])]"
    by (elim exE)
  show ?thesis unfolding o by (simp add: subdict_def)
qed

text \<open>The test fixture's trip during a total outage.\<close>

theorem outage_result_witness:
  "respond outage = (\<lambda>k req. None) \<and> duration_days georgia \<noteq> 0 \<and> in_range outage georgia \<and>
   returned (outcome (plan_trip outage TravelPlanningOrchestrator_init ''Georgia'' georgia fresh)) \<and>
   map_of (subdict (payload_of (outcome
       (plan_trip outage TravelPlanningOrchestrator_init ''Georgia'' georgia fresh)))
       ''research_output'') ''research_data'' =
     Some (PDict [(''synthesis'', PStr ''Synthesis unavailable'')]) \<and>
   map_of (subdict (payload_of (outcome
       (plan_trip outage TravelPlanningOrchestrator_init ''Georgia'' georgia fresh)))
       ''planning_output'') ''cost_analysis'' =
     Some (PDict [(''cost_analysis'', PStr ''Cost analysis unavailable'')])"
  using outage_result[of outage georgia TravelPlanningOrchestrator_init "''Georgia''" fresh]
    georgia_in_range[of outage]
  by (simp add: outage_def georgia_def)

text \<open>
  C2 as stated fails: in a total outage the Planning payload's itinerary is not a
  fallback string but the wrapped output of the previous sub-call; and with a duration
  of zero days an exception does escape \<^verbatim>\<open>plan_trip\<close>.
\<close>

theorem outage_fallbacks_are_not_sentinels:
  "respond outage = (\<lambda>k req. None) \<and>
   map_of (subdict (payload_of (outcome
       (plan_trip outage TravelPlanningOrchestrator_init ''Georgia'' georgia fresh)))
       ''planning_output'') ''itinerary'' =
     Some (PDict [(''optimized_itinerary'',
        PDict [(''itinerary'', PStr ''Itinerary generation failed'')])]) \<and>
   \<not> string_valued (PDict [(''optimized_itinerary'',
        PDict [(''itinerary'', PStr ''Itinerary generation failed'')])]) \<and>
   outcome (plan_trip outage TravelPlanningOrchestrator_init ''Georgia'' zero_days fresh) =
     Inl ZeroDivisionError"
proof -
  have o: "respond outage = (\<lambda>k req. None)" by (simp add: outage_def)
  have dd: "duration_days georgia \<noteq> 0" by (simp add: georgia_def)
  from plan_trip_outage[OF o dd georgia_in_range,
      of TravelPlanningOrchestrator_init "''Georgia''" fresh]
  have i: "map_of (subdict (payload_of (outcome
       (plan_trip outage TravelPlanningOrchestrator_init ''Georgia'' georgia fresh)))
       ''planning_output'') ''itinerary'' =
     Some (PDict [(''optimized_itinerary'',
        PDict [(''itinerary'', PStr ''Itinerary generation failed'')])])"
    by (auto simp: subdict_def)
  have "outcome (plan_trip outage TravelPlanningOrchestrator_init ''Georgia'' zero_days fresh) =
     Inl ZeroDivisionError"
  proof (rule plan_trip_stops[OF budget_per_night_zero_days,
        of outage TravelPlanningOrchestrator_init "''Georgia''" fresh], goal_cases)
    case (1 w')
    from 1(1) show ?case by (simp add: outcome_def)
  qed
  with o i show ?thesis by simp
qed







end
